theory Spec2Isabelle
  imports Main "HOL-Library.Sublist" "HOL-Library.Multiset"
begin

section \<open>Strings\<close>

text \<open>
  Identifiers are modelled as \<open>string\<close> (a list of 8-bit characters).  The two string
  primitives of the platform that the filter uses are \<open>String.prototype.toLowerCase\<close> and
  \<open>String.prototype.includes\<close>.  \<open>toLowerCase\<close> is modelled on the ASCII letters (every
  other character is left as it is); \<open>s.includes(t)\<close> is \<open>sublist t s\<close>: the characters
  of \<open>t\<close> occur in \<open>s\<close> as one contiguous block.
\<close>

definition lowerChar :: "char \<Rightarrow> char" where
  "lowerChar c =
     (let n = (of_char c :: nat)
      in if 65 \<le> n \<and> n \<le> 90 then char_of (n + 32) else c)"

definition toLowerCase :: "string \<Rightarrow> string" where
  "toLowerCase s = map lowerChar s"

definition includes_str :: "string \<Rightarrow> string \<Rightarrow> bool" where
  "includes_str s t = sublist t s"

section \<open>The model registry (models.ts)\<close>

datatype ModelRole = Chat | Summary | Completions | Rewrite | Image

text \<open>
  \<open>interface GeminiModel\<close>.  The two optional fields are options: \<open>None\<close> is the
  absent field (\<open>undefined\<close>).
\<close>

record GeminiModel =
  "value" :: string
  label :: string
  defaultForRoles :: "ModelRole list option"
  supportsImageGeneration :: "bool option"

datatype error =
  EmptyRegistry  \<comment> \<open>\<open>CRITICAL: GEMINI_MODELS array is empty. ...\<close>\<close>

text \<open>
  \<open>m.defaultForRoles?.includes(role)\<close>: \<open>undefined\<close> (falsy) when the field is absent.
\<close>

definition claimsRole :: "ModelRole \<Rightarrow> GeminiModel \<Rightarrow> bool" where
  "claimsRole role m =
     (case defaultForRoles m of None \<Rightarrow> False | Some rs \<Rightarrow> role \<in> set rs)"

text \<open>
  \<open>getDefaultModelForRole\<close> reads the module-level array \<open>GEMINI_MODELS\<close>; the model
  takes that array as its first argument.  The \<open>throw\<close> is the \<open>Inl\<close> branch.
\<close>

definition getDefaultModelForRole :: "GeminiModel list \<Rightarrow> ModelRole \<Rightarrow> error + string" where
  "getDefaultModelForRole GEMINI_MODELS role =
     (case find (claimsRole role) GEMINI_MODELS of
        Some modelForRole \<Rightarrow> Inr (value modelForRole)
      | None \<Rightarrow>
          (case GEMINI_MODELS of
             m0 # _ \<Rightarrow> Inr (value m0)
           | [] \<Rightarrow> Inl EmptyRegistry))"

section \<open>Filtering (ModelManager.filterModelsForVersion)\<close>

text \<open>The first \<open>if\<close> of the filter callback: the specialised, non-chat families.\<close>

definition isSpecialized :: "string \<Rightarrow> bool" where
  "isSpecialized modelValue \<longleftrightarrow>
     includes_str modelValue ''embedding'' \<or>
     includes_str modelValue ''whisper'' \<or>
     includes_str modelValue ''tts'' \<or>
     includes_str modelValue ''transcribe'' \<or>
     includes_str modelValue ''moderation'' \<or>
     includes_str modelValue ''guard'' \<or>
     includes_str modelValue ''speech''"

text \<open>
  \<open>const isImageModel = model.supportsImageGeneration || ...\<close>: the flag counts only
  when it is present and \<open>true\<close>.
\<close>

definition isImageModel :: "GeminiModel \<Rightarrow> string \<Rightarrow> bool" where
  "isImageModel model modelValue \<longleftrightarrow>
     supportsImageGeneration model = Some True \<or>
     includes_str modelValue ''image'' \<or>
     includes_str modelValue ''vision'' \<or>
     includes_str modelValue ''flux''"

definition filterModelsForVersion :: "GeminiModel list \<Rightarrow> bool \<Rightarrow> GeminiModel list" where
  "filterModelsForVersion models imageModelsOnly =
     filter (\<lambda>model.
        let modelValue = toLowerCase (value model)
        in if isSpecialized modelValue then False
           else if imageModelsOnly then isImageModel model modelValue
           else \<not> isImageModel model modelValue) models"

section \<open>Settings migration (models.ts, ModelManager.updateModels)\<close>

text \<open>
  The four model-name settings that \<open>getUpdatedModelSettings\<close> reads.  A field is
  \<open>None\<close> when the settings object has no such property (\<open>undefined\<close>); every other
  property of the settings object is the extension part of the record, which the
  spread \<open>{ ...currentSettings }\<close> copies.
\<close>

record ModelSettings =
  chatModelName :: "string option"
  summaryModelName :: "string option"
  completionsModelName :: "string option"
  imageModelName :: "string option"

record 'a ModelUpdateResult =
  updatedSettings :: "'a ModelSettings_scheme"
  settingsChanged :: bool
  changedSettingsInfo :: "string list"

text \<open>
  What a template literal prints for a model name put between apostrophes:
  \<open>undefined\<close> for an absent one.
\<close>

definition quoted :: "string option \<Rightarrow> string" where
  "quoted modelName =
     [CHR 0x27] @ (case modelName of None \<Rightarrow> ''undefined'' | Some n \<Rightarrow> n) @ [CHR 0x27]"

text \<open>
  \<open>const needsUpdate = (modelName) => !modelName || !availableModelValues.has(modelName)\<close>,
  with \<open>availableModelValues = new Set(GEMINI_MODELS.map((m) => m.value))\<close>.
\<close>

definition needsUpdate :: "GeminiModel list \<Rightarrow> string option \<Rightarrow> bool" where
  "needsUpdate GEMINI_MODELS modelName =
     (case modelName of
        None \<Rightarrow> True
      | Some n \<Rightarrow> n = [] \<or> n \<notin> set (map value GEMINI_MODELS))"

text \<open>
  The four \<open>if\<close> blocks of \<open>getUpdatedModelSettings\<close>, in the order of the source.
  The running triple \<open>newSettings\<close>, \<open>settingsChanged\<close>, \<open>changedSettingsInfo\<close> is the
  result record being built.  A block that calls \<open>getDefaultModelForRole\<close> passes its
  exception on.
\<close>

definition updateChat ::
  "GeminiModel list \<Rightarrow> 'a ModelUpdateResult \<Rightarrow> error + 'a ModelUpdateResult" where
  "updateChat GEMINI_MODELS r =
     (let newSettings = updatedSettings r
      in if needsUpdate GEMINI_MODELS (chatModelName newSettings) then
           (case getDefaultModelForRole GEMINI_MODELS Chat of
              Inl e \<Rightarrow> Inl e
            | Inr next \<Rightarrow>
                Inr \<lparr>updatedSettings = newSettings\<lparr>chatModelName := Some next\<rparr>,
                     settingsChanged = True,
                     changedSettingsInfo = changedSettingsInfo r @
                       [''Chat model: '' @ quoted (chatModelName newSettings) @
                        '' -> '' @ quoted (Some next) @ '' (model update)'']\<rparr>)
         else Inr r)"

definition updateSummary ::
  "GeminiModel list \<Rightarrow> 'a ModelUpdateResult \<Rightarrow> error + 'a ModelUpdateResult" where
  "updateSummary GEMINI_MODELS r =
     (let newSettings = updatedSettings r
      in if needsUpdate GEMINI_MODELS (summaryModelName newSettings) then
           (case getDefaultModelForRole GEMINI_MODELS Summary of
              Inl e \<Rightarrow> Inl e
            | Inr next \<Rightarrow>
                Inr \<lparr>updatedSettings = newSettings\<lparr>summaryModelName := Some next\<rparr>,
                     settingsChanged = True,
                     changedSettingsInfo = changedSettingsInfo r @
                       [''Summary model: '' @ quoted (summaryModelName newSettings) @
                        '' -> '' @ quoted (Some next) @ '' (model update)'']\<rparr>)
         else Inr r)"

definition updateCompletions ::
  "GeminiModel list \<Rightarrow> 'a ModelUpdateResult \<Rightarrow> error + 'a ModelUpdateResult" where
  "updateCompletions GEMINI_MODELS r =
     (let newSettings = updatedSettings r
      in if needsUpdate GEMINI_MODELS (completionsModelName newSettings) then
           (case getDefaultModelForRole GEMINI_MODELS Completions of
              Inl e \<Rightarrow> Inl e
            | Inr next \<Rightarrow>
                Inr \<lparr>updatedSettings = newSettings\<lparr>completionsModelName := Some next\<rparr>,
                     settingsChanged = True,
                     changedSettingsInfo = changedSettingsInfo r @
                       [''Completions model: '' @ quoted (completionsModelName newSettings) @
                        '' -> '' @ quoted (Some next) @ '' (model update)'']\<rparr>)
         else Inr r)"

text \<open>
  The image block: \<open>newSettings.imageModelName && needsUpdate(...)\<close>.  It asks for no
  role default; it clears the name.
\<close>

definition updateImage :: "GeminiModel list \<Rightarrow> 'a ModelUpdateResult \<Rightarrow> 'a ModelUpdateResult" where
  "updateImage GEMINI_MODELS r =
     (let newSettings = updatedSettings r
      in if imageModelName newSettings \<noteq> None \<and> imageModelName newSettings \<noteq> Some [] \<and>
            needsUpdate GEMINI_MODELS (imageModelName newSettings) then
           \<lparr>updatedSettings = newSettings\<lparr>imageModelName := Some []\<rparr>,
            settingsChanged = True,
            changedSettingsInfo = changedSettingsInfo r @
              [''Image model '' @ quoted (imageModelName newSettings) @
               '' is not available on Groq and was cleared.'']\<rparr>
         else r)"

definition getUpdatedModelSettings ::
  "GeminiModel list \<Rightarrow> 'a ModelSettings_scheme \<Rightarrow> error + 'a ModelUpdateResult" where
  "getUpdatedModelSettings GEMINI_MODELS currentSettings =
     (case updateChat GEMINI_MODELS
             \<lparr>updatedSettings = currentSettings, settingsChanged = False,
              changedSettingsInfo = []\<rparr> of
        Inl e \<Rightarrow> Inl e
      | Inr r1 \<Rightarrow>
          (case updateSummary GEMINI_MODELS r1 of
             Inl e \<Rightarrow> Inl e
           | Inr r2 \<Rightarrow>
               (case updateCompletions GEMINI_MODELS r2 of
                  Inl e \<Rightarrow> Inl e
                | Inr r3 \<Rightarrow> Inr (updateImage GEMINI_MODELS r3))))"

text \<open>
  \<open>areSetsEqual\<close> and \<open>detectModelChanges\<close>.  A JavaScript \<open>Set\<close> of strings is a list
  without duplicates: \<open>size\<close> is its length, \<open>has\<close> is membership.
\<close>

definition areSetsEqual :: "'a list \<Rightarrow> 'a list \<Rightarrow> bool" where
  "areSetsEqual set1 set2 \<longleftrightarrow>
     length set1 = length set2 \<and> list_all (\<lambda>item. item \<in> set set2) set1"

definition detectModelChanges :: "GeminiModel list \<Rightarrow> GeminiModel list \<Rightarrow> bool" where
  "detectModelChanges current previous =
     (if length current \<noteq> length previous then True
      else
        let currentIds = remdups (map value current);
            previousIds = remdups (map value previous)
        in \<not> areSetsEqual currentIds previousIds)"

text \<open>
  \<open>updateModels\<close>.  Its first argument is the list that the awaited
  \<open>getAvailableModels(options)\<close> returned (a fresh array: the result of a \<open>filter\<close>, so
  \<open>setGeminiModels\<close> does not read the array it clears); its second is the registry
  \<open>GEMINI_MODELS\<close> as the call finds it.  The result is the registry as the call
  leaves it, and the value returned or the exception raised.
\<close>

definition updateModels ::
  "GeminiModel list \<Rightarrow> GeminiModel list \<Rightarrow> 'a ModelSettings_scheme \<Rightarrow>
     GeminiModel list \<times> (error + 'a ModelUpdateResult)" where
  "updateModels currentModels GEMINI_MODELS settings =
     (let previousModels = GEMINI_MODELS;
          hasChanges = detectModelChanges currentModels previousModels
      in if hasChanges then
           (currentModels, getUpdatedModelSettings currentModels settings)
         else
           (GEMINI_MODELS,
            Inr \<lparr>updatedSettings = settings, settingsChanged = False,
                 changedSettingsInfo = []\<rparr>))"

section \<open>Model discovery (ModelDiscoveryService)\<close>

record GoogleModel =
  name :: string
  displayName :: string
  description :: string
  version :: string
  inputTokenLimit :: int
  outputTokenLimit :: int
  supportedGenerationMethods :: "string list"
  baseModelId :: "string option"
  maxTemperature :: "int option"
  topP :: "int option"
  topK :: "int option"

record ModelDiscoveryResult =
  models :: "GoogleModel list"
  lastUpdated :: int
  success :: bool
  error :: "string option"

text \<open>
  A value that JavaScript code throws: an \<open>Error\<close> object with its message, or
  anything else.
\<close>

datatype thrown = Error string | NonError

text \<open>One entry of the catalog's \<open>data\<close> array; an absent field is the empty string.\<close>

record CatalogEntry =
  entry_id :: string
  owned_by :: string

text \<open>
  What the network does when \<open>fetch\<close> is called, and what \<open>response.json()\<close> gives:
  the \<open>fetch\<close> promise rejects, or it resolves to a response with \<open>ok\<close>, \<open>status\<close>,
  \<open>statusText\<close> and a body.  \<open>JsonRejects\<close> is a body for which \<open>response.json()\<close>
  rejects, or gives a value on which the code that reads it throws (all of it is inside
  the \<open>try\<close>); \<open>JsonValue\<close> is a body with the catalog's shape, \<open>None\<close> when it has no
  \<open>data\<close> property.
\<close>

datatype body = JsonRejects thrown | JsonValue "CatalogEntry list option"

datatype fetch_result = FetchRejects thrown | Response bool nat string body

text \<open>
  What one call of \<open>discoverModels\<close> reads from outside: the two clock readings
  \<open>Date.now()\<close> (in \<open>isCacheValid\<close>, and when the result is built), the outcome of the
  network request should one be made, and whether \<open>persistCache\<close> (\<open>loadData\<close>,
  \<open>saveData\<close>) rejects.
\<close>

record environment =
  clock_check :: int
  clock_stamp :: int
  fetch_outcome :: fetch_result
  persist_outcome :: "thrown option"

text \<open>
  The state a call works on: the private field \<open>cache\<close>, the setting
  \<open>plugin.settings.apiKey\<close> (empty when not configured), the entry
  \<open>modelDiscoveryCache\<close> of the durable store, and the number of network requests
  made so far (each call of \<open>fetch\<close> adds one).
\<close>

record service =
  cache :: "ModelDiscoveryResult option"
  apiKey :: string
  stored :: "ModelDiscoveryResult option"
  requests :: nat

definition CACHE_DURATION :: int where
  "CACHE_DURATION = 24 * 60 * 60 * 1000"

function decimal :: "nat \<Rightarrow> string" where
  "decimal n =
     (if n < 10 then [char_of (48 + n)]
      else decimal (n div 10) @ [char_of (48 + n mod 10)])"
  by pat_completeness auto
termination
  by (relation "measure id") auto

declare decimal.simps [simp del]

definition isGenerativeModel :: "CatalogEntry \<Rightarrow> bool" where
  "isGenerativeModel model =
     (let lowered = toLowerCase (entry_id model)
      in lowered \<noteq> [] \<and> \<not> includes_str lowered ''whisper'' \<and>
         \<not> includes_str lowered ''tts'' \<and> \<not> includes_str lowered ''vision-preview'')"

definition toGoogleModel :: "CatalogEntry \<Rightarrow> GoogleModel" where
  "toGoogleModel model =
     \<lparr>name = entry_id model,
      displayName = entry_id model,
      description = (if owned_by model \<noteq> [] then owned_by model else ''Groq model''),
      version = ''latest'',
      inputTokenLimit = 131072,
      outputTokenLimit = 8192,
      supportedGenerationMethods = [''generateContent''],
      baseModelId = None,
      maxTemperature = Some 2,
      topP = Some 1,
      topK = None\<rparr>"

definition fetchModelsFromAPI ::
  "service \<Rightarrow> environment \<Rightarrow> service \<times> (thrown + GoogleModel list)" where
  "fetchModelsFromAPI s env =
     (if apiKey s = [] then (s, Inl (Error ''API key not configured''))
      else
        let s' = s\<lparr>requests := requests s + 1\<rparr>
        in case fetch_outcome env of
             FetchRejects e \<Rightarrow> (s', Inl e)
           | Response ok status statusText b \<Rightarrow>
               if \<not> ok then
                 (s', Inl (Error (''API request failed: '' @ decimal status @ '' '' @ statusText)))
               else
                 (case b of
                    JsonRejects e \<Rightarrow> (s', Inl e)
                  | JsonValue data \<Rightarrow>
                      (s', Inr (map toGoogleModel
                                 (filter isGenerativeModel
                                    (case data of None \<Rightarrow> [] | Some entries \<Rightarrow> entries))))))"

definition isCacheValid :: "service \<Rightarrow> environment \<Rightarrow> bool" where
  "isCacheValid s env =
     (case cache s of
        None \<Rightarrow> False
      | Some c \<Rightarrow> clock_check env - lastUpdated c < CACHE_DURATION)"

definition persistCache ::
  "service \<Rightarrow> environment \<Rightarrow> ModelDiscoveryResult \<Rightarrow> service \<times> (thrown + unit)" where
  "persistCache s env result =
     (case persist_outcome env of
        Some e \<Rightarrow> (s, Inl e)
      | None \<Rightarrow> (s\<lparr>stored := Some result\<rparr>, Inr ()))"

text \<open>The body of the \<open>try\<close> block of \<open>discoverModels\<close>.\<close>

definition discoverModels_try ::
  "service \<Rightarrow> environment \<Rightarrow> service \<times> (thrown + ModelDiscoveryResult)" where
  "discoverModels_try s env =
     (case fetchModelsFromAPI s env of
        (s1, Inl e) \<Rightarrow> (s1, Inl e)
      | (s1, Inr fetched) \<Rightarrow>
          let result = \<lparr>models = fetched, lastUpdated = clock_stamp env, success = True,
                        error = None\<rparr>;
              s2 = s1\<lparr>cache := Some result\<rparr>
          in case persistCache s2 env result of
               (s3, Inl e) \<Rightarrow> (s3, Inl e)
             | (s3, Inr _) \<Rightarrow> (s3, Inr result))"

text \<open>
  \<open>discoverModels\<close>: the cache short-cut (taken when \<open>this.cache\<close> is set, the call
  does not force a refresh and the cache is valid), and otherwise \<open>attempt\<close>, the
  \<open>try\<close> with its \<open>catch\<close>.  The result is a sum so that an exception leaving the
  function would be an \<open>Inl\<close>.
\<close>

definition discoverModels ::
  "bool \<Rightarrow> service \<Rightarrow> environment \<Rightarrow> service \<times> (thrown + ModelDiscoveryResult)" where
  "discoverModels forceRefresh s env =
     (let attempt =
        (case discoverModels_try s env of
           (s', Inr result) \<Rightarrow> (s', Inr result)
         | (s', Inl e) \<Rightarrow>
             let result = \<lparr>models = [], lastUpdated = clock_stamp env, success = False,
                           error = Some (case e of Error message \<Rightarrow> message
                                         | NonError \<Rightarrow> ''Unknown error'')\<rparr>
             in (s', Inr (case cache s' of Some c \<Rightarrow> c | None \<Rightarrow> result)))
      in case cache s of
           Some c \<Rightarrow> if \<not> forceRefresh \<and> isCacheValid s env then (s, Inr c) else attempt
         | None \<Rightarrow> attempt)"

section \<open>The completion client (GeminiClient)\<close>

subsection \<open>JSON values and the decoder of tool-call arguments\<close>

text \<open>
  A value that \<open>JSON.parse\<close> returns.  A number is kept as the text of its literal;
  an object is the list of its properties in order.
\<close>

datatype json =
  JNull
  | JBool bool
  | JNumber string
  | JString string
  | JArray "json list"
  | JObject "(string \<times> json) list"

text \<open>
  \<open>parseJson\<close>.  \<open>JSON.parse\<close> belongs to the platform; it is the first argument, a
  function that gives \<open>None\<close> where \<open>JSON.parse\<close> throws.  The \<open>catch\<close> has no
  binding and no condition, so every exception of \<open>JSON.parse\<close> ends in the
  \<open>{ raw: value }\<close> branch.  The argument is \<open>None\<close> for \<open>undefined\<close>.
\<close>

definition parseJson :: "(string \<Rightarrow> json option) \<Rightarrow> string option \<Rightarrow> json" where
  "parseJson JSON_parse v =
     (case v of
        None \<Rightarrow> JObject []
      | Some s \<Rightarrow>
          if s = [] then JObject []
          else (case JSON_parse s of
                  Some parsed \<Rightarrow> parsed
                | None \<Rightarrow> JObject [(''raw'', JString s)]))"

subsection \<open>The non-streaming path\<close>

text \<open>
  One entry of \<open>tool_calls\<close>, in a message or in a streamed delta, typed as the wire
  protocol has it: \<open>index\<close> a number, \<open>id\<close> a string, \<open>function.name\<close> and
  \<open>function.arguments\<close> strings, each of them possibly absent.  The source reads the
  last two through \<open>tc.function?.name\<close> and \<open>tc.function?.arguments\<close>, so an absent
  \<open>function\<close> is two absent fields.
\<close>

record ToolCallEntry =
  tc_index :: "int option"
  tc_id :: "string option"
  function_name :: "string option"
  function_arguments :: "string option"

record ToolCall =
  call_name :: "string option"
  call_arguments :: json

record ModelResponse =
  markdown :: string
  rendered :: string
  toolCalls :: "ToolCall list option"

text \<open>\<open>response.choices?.[0]?.message\<close>, when there is one.\<close>

record Message =
  message_content :: "string option"
  message_tool_calls :: "ToolCallEntry list option"

definition extractResponse :: "(string \<Rightarrow> json option) \<Rightarrow> Message option \<Rightarrow> ModelResponse" where
  "extractResponse JSON_parse choice =
     \<lparr>markdown =
        (case choice of
           None \<Rightarrow> []
         | Some m \<Rightarrow> (case message_content m of None \<Rightarrow> [] | Some c \<Rightarrow> c)),
      rendered = [],
      toolCalls =
        (case choice of
           None \<Rightarrow> None
         | Some m \<Rightarrow>
             (case message_tool_calls m of
                None \<Rightarrow> None
              | Some [] \<Rightarrow> None
              | Some (tc # tcs) \<Rightarrow>
                  Some (map (\<lambda>tc. \<lparr>call_name = function_name tc,
                                     call_arguments = parseJson JSON_parse (function_arguments tc)\<rparr>)
                            (tc # tcs))))\<rparr>"

subsection \<open>The streaming path\<close>

text \<open>
  An entry of \<open>toolCallBuffer\<close>, and the buffer itself: a JavaScript \<open>Map\<close> keeps its
  keys in the order of their first insertion, so it is an association list in which
  \<open>set\<close> replaces the value of a present key in place and appends an absent one.
\<close>

record Fragment =
  frag_id :: "string option"
  frag_name :: "string option"
  frag_arguments :: string

fun map_get :: "('k \<times> 'v) list \<Rightarrow> 'k \<Rightarrow> 'v option" where
  "map_get [] k = None"
| "map_get ((k', v) # kvs) k = (if k' = k then Some v else map_get kvs k)"

fun map_set :: "('k \<times> 'v) list \<Rightarrow> 'k \<Rightarrow> 'v \<Rightarrow> ('k \<times> 'v) list" where
  "map_set [] k v = [(k, v)]"
| "map_set ((k', v') # kvs) k v =
     (if k' = k then (k, v) # kvs else (k', v') # map_set kvs k v)"

text \<open>A string is truthy when it is present and not empty.\<close>

definition truthy :: "string option \<Rightarrow> bool" where
  "truthy v = (case v of None \<Rightarrow> False | Some s \<Rightarrow> s \<noteq> [])"

text \<open>The body of \<open>for (const tc of delta.tool_calls)\<close>.\<close>

definition accumulate :: "(int \<times> Fragment) list \<Rightarrow> ToolCallEntry \<Rightarrow> (int \<times> Fragment) list" where
  "accumulate toolCallBuffer tc =
     (let index = (case tc_index tc of None \<Rightarrow> 0 | Some i \<Rightarrow> i);
          existing = (case map_get toolCallBuffer index of
                        Some e \<Rightarrow> e
                      | None \<Rightarrow> \<lparr>frag_id = None, frag_name = None, frag_arguments = []\<rparr>);
          existing1 = (if truthy (tc_id tc) then existing\<lparr>frag_id := tc_id tc\<rparr> else existing);
          existing2 = (if truthy (function_name tc)
                       then existing1\<lparr>frag_name := function_name tc\<rparr> else existing1);
          existing3 = (case function_arguments tc of
                         None \<Rightarrow> existing2
                       | Some fragment \<Rightarrow>
                           if fragment \<noteq> []
                           then existing2\<lparr>frag_arguments := frag_arguments existing2 @ fragment\<rparr>
                           else existing2)
      in map_set toolCallBuffer index existing3)"

text \<open>
  The lines after the read loop: the buffer becomes the list of tool calls, in the
  order of the buffer; without any entry \<open>toolCalls\<close> stays \<open>undefined\<close>.
\<close>

definition finalize :: "(string \<Rightarrow> json option) \<Rightarrow> (int \<times> Fragment) list \<Rightarrow> ToolCall list option" where
  "finalize JSON_parse toolCallBuffer =
     (if length toolCallBuffer > 0 then
        Some (map (\<lambda>tc. \<lparr>call_name = frag_name tc,
                           call_arguments = parseJson JSON_parse (Some (frag_arguments tc))\<rparr>)
                  (filter (\<lambda>tc. truthy (frag_name tc)) (map snd toolCallBuffer)))
      else None)"

text \<open>
  \<open>chunk.choices?.[0]?.delta\<close> of one parsed \<open>data:\<close> payload, typed as the wire
  protocol has it.
\<close>

record Delta =
  content :: "string option"
  tool_calls :: "ToolCallEntry list option"

text \<open>
  The variables of one streaming call: \<open>markdown\<close>, \<open>buffer\<close>, \<open>toolCallBuffer\<close>,
  \<open>cancelled\<close>, and the texts handed to \<open>onChunk\<close> so far, in order.
\<close>

record StreamState =
  markdown_so_far :: string
  buffer :: string
  toolCallBuffer :: "(int \<times> Fragment) list"
  cancelled :: bool
  emitted :: "string list"

text \<open>
  What a call reads from outside.  \<open>decode\<close> stands for \<open>JSON.parse(data)\<close> followed
  by the reading of \<open>choices?.[0]?.delta\<close>: it gives the exception, or the delta when
  there is one.  \<open>onChunk\<close> is the caller's callback: it is given the texts received
  so far, the new one included, and tells whether it calls \<open>cancel()\<close>; it is taken to
  return normally.
\<close>

record platform =
  JSON_parse :: "string \<Rightarrow> json option"
  decode :: "string \<Rightarrow> thrown + Delta option"
  onChunk :: "string list \<Rightarrow> bool"

text \<open>The part of the loop body that follows \<open>const delta = ...\<close>.\<close>

definition process_delta :: "platform \<Rightarrow> Delta option \<Rightarrow> StreamState \<Rightarrow> StreamState" where
  "process_delta p delta st =
     (let text = (case delta of
                    None \<Rightarrow> []
                  | Some d \<Rightarrow> (case content d of None \<Rightarrow> [] | Some t \<Rightarrow> t));
          st1 = (if text \<noteq> [] then
                   st\<lparr>markdown_so_far := markdown_so_far st @ text,
                      emitted := emitted st @ [text],
                      cancelled := cancelled st \<or> onChunk p (emitted st @ [text])\<rparr>
                 else st);
          tcs = (case delta of
                   None \<Rightarrow> []
                 | Some d \<Rightarrow> (case tool_calls d of None \<Rightarrow> [] | Some l \<Rightarrow> l))
      in st1\<lparr>toolCallBuffer := foldl accumulate (toolCallBuffer st1) tcs\<rparr>)"

text \<open>
  The string primitives of the loop: \<open>s.split(sep)\<close> for a separator that is not
  empty, \<open>startsWith\<close>, and \<open>trim\<close> on the ASCII white space.
\<close>

function split_from :: "string \<Rightarrow> string \<Rightarrow> string \<Rightarrow> string list" where
  "split_from sep cur s =
     (if s = [] then [cur]
      else if sep \<noteq> [] \<and> prefix sep s then cur # split_from sep [] (drop (length sep) s)
      else split_from sep (cur @ [hd s]) (tl s))"
  by pat_completeness auto
termination
  by (relation "measure (\<lambda>(sep, cur, s). length s)") auto

declare split_from.simps [simp del]

definition split :: "string \<Rightarrow> string \<Rightarrow> string list" where
  "split s sep = split_from sep [] s"

definition startsWith :: "string \<Rightarrow> string \<Rightarrow> bool" where
  "startsWith s p = prefix p s"

definition isWhiteSpace :: "char \<Rightarrow> bool" where
  "isWhiteSpace c \<longleftrightarrow> (of_char c :: nat) \<in> {9, 10, 11, 12, 13, 32}"

definition trim :: "string \<Rightarrow> string" where
  "trim s = rev (dropWhile isWhiteSpace (rev (dropWhile isWhiteSpace s)))"

text \<open>A loop whose body may throw: the first exception ends it.\<close>

fun for_each :: "('a \<Rightarrow> 's \<Rightarrow> thrown + 's) \<Rightarrow> 'a list \<Rightarrow> 's \<Rightarrow> thrown + 's" where
  "for_each body [] st = Inr st"
| "for_each body (x # xs) st =
     (case body x st of Inl e \<Rightarrow> Inl e | Inr st' \<Rightarrow> for_each body xs st')"

text \<open>The body of \<open>for (const line of event.split('\n'))\<close>.\<close>

definition process_line :: "platform \<Rightarrow> string \<Rightarrow> StreamState \<Rightarrow> thrown + StreamState" where
  "process_line p line st =
     (if \<not> startsWith line ''data: '' then Inr st
      else
        let data = trim (drop 6 line)
        in if data = [] \<or> data = ''[DONE]'' then Inr st
           else (case decode p data of
                   Inl e \<Rightarrow> Inl e
                 | Inr delta \<Rightarrow> Inr (process_delta p delta st)))"

text \<open>
  The loop body after a read that is not \<open>done\<close>; \<open>text\<close> is what
  \<open>decoder.decode(value, { stream: true })\<close> gives for the bytes read.
\<close>

definition process_read :: "platform \<Rightarrow> string \<Rightarrow> StreamState \<Rightarrow> thrown + StreamState" where
  "process_read p text st =
     (let events = split (buffer st @ text) ''\<newline>\<newline>'';
          st1 = st\<lparr>buffer := last events\<rparr>
      in for_each (\<lambda>event. for_each (process_line p) (split event ''\<newline>''))
           (butlast events) st1)"

text \<open>
  One \<open>await reader.read()\<close>: whether \<open>cancel()\<close> is called while the read is pending,
  and what the read resolves to.
\<close>

datatype read_result = Done | Value string | ReadRejects thrown

record read =
  cancel_while_pending :: bool
  outcome :: read_result

text \<open>
  \<open>while (!cancelled) { ... }\<close> over the reads that the stream answers, in order.
  \<open>None\<close> is the call that never settles: the flag is not set and the stream gives
  no further answer.
\<close>

fun read_loop :: "platform \<Rightarrow> read list \<Rightarrow> StreamState \<Rightarrow> (thrown + StreamState) option" where
  "read_loop p [] st = (if cancelled st then Some (Inr st) else None)"
| "read_loop p (r # rs) st =
     (if cancelled st then Some (Inr st)
      else
        let st1 = st\<lparr>cancelled := cancel_while_pending r\<rparr>
        in case outcome r of
             Done \<Rightarrow> Some (Inr st1)
           | ReadRejects e \<Rightarrow> Some (Inl e)
           | Value text \<Rightarrow>
               (case process_read p text st1 of
                  Inl e \<Rightarrow> Some (Inl e)
                | Inr st2 \<Rightarrow> read_loop p rs st2))"

text \<open>
  \<open>generateStreamingResponse\<close>, from the answer to the request on.  The request is
  refused (\<open>fetch\<close> rejects, or the response is not \<open>ok\<close> or has no body) or it gives
  a stream of reads.  \<open>cancelled_at_start\<close> tells whether \<open>cancel()\<close> was called before
  the loop is entered.  The result is \<open>None\<close> for a promise that never settles, the
  exception for one that rejects, and the response together with the texts handed to
  \<open>onChunk\<close> for one that resolves.
\<close>

datatype stream_response = Refused thrown | Stream "read list"

definition generateStreamingResponse ::
  "platform \<Rightarrow> bool \<Rightarrow> stream_response \<Rightarrow> (thrown + ModelResponse \<times> string list) option" where
  "generateStreamingResponse p cancelled_at_start streamResponse =
     (case streamResponse of
        Refused e \<Rightarrow> Some (Inl e)
      | Stream reads \<Rightarrow>
          (case read_loop p reads
                  \<lparr>markdown_so_far = [], buffer = [], toolCallBuffer = [],
                   cancelled = cancelled_at_start, emitted = []\<rparr> of
             None \<Rightarrow> None
           | Some (Inl e) \<Rightarrow> Some (Inl e)
           | Some (Inr st) \<Rightarrow>
               Some (Inr (\<lparr>markdown = markdown_so_far st, rendered = [],
                           toolCalls = finalize (JSON_parse p) (toolCallBuffer st)\<rparr>,
                          emitted st))))"

section \<open>The tool-call entries of a stream, index by index\<close>

text \<open>
  The view of a list of tool-call entries, taken in the order in which the stream
  delivers them, in which the properties of the streaming path are stated: the index
  of an entry (\<open>tc.index ?? 0\<close>),
  the indices in the order of their first appearance, and for one index the
  entries sent at it, their argument fragments concatenated, and the last identifier
  and the last name that were supplied (present and not empty).
\<close>

definition entry_index :: "ToolCallEntry \<Rightarrow> int" where
  "entry_index tc = (case tc_index tc of None \<Rightarrow> 0 | Some i \<Rightarrow> i)"

fun first_occurrences :: "'a list \<Rightarrow> 'a list" where
  "first_occurrences [] = []"
| "first_occurrences (x # xs) = x # filter (\<lambda>y. y \<noteq> x) (first_occurrences xs)"

definition indices :: "ToolCallEntry list \<Rightarrow> int list" where
  "indices ds = first_occurrences (map entry_index ds)"

definition entries_at :: "int \<Rightarrow> ToolCallEntry list \<Rightarrow> ToolCallEntry list" where
  "entries_at i ds = filter (\<lambda>tc. entry_index tc = i) ds"

definition fragment_text :: "ToolCallEntry \<Rightarrow> string" where
  "fragment_text tc = (case function_arguments tc of None \<Rightarrow> [] | Some a \<Rightarrow> a)"

definition arguments_at :: "int \<Rightarrow> ToolCallEntry list \<Rightarrow> string" where
  "arguments_at i ds = concat (map fragment_text (entries_at i ds))"

definition last_supplied :: "string option list \<Rightarrow> string option" where
  "last_supplied vs = (case filter truthy vs of [] \<Rightarrow> None | t # ts \<Rightarrow> last (t # ts))"

definition name_at :: "int \<Rightarrow> ToolCallEntry list \<Rightarrow> string option" where
  "name_at i ds = last_supplied (map function_name (entries_at i ds))"

definition id_at :: "int \<Rightarrow> ToolCallEntry list \<Rightarrow> string option" where
  "id_at i ds = last_supplied (map tc_id (entries_at i ds))"

text \<open>What a buffer holds at an index; nothing, when the index is not a key.\<close>

definition buffered_id :: "(int \<times> Fragment) list \<Rightarrow> int \<Rightarrow> string option" where
  "buffered_id b i = (case map_get b i of None \<Rightarrow> None | Some e \<Rightarrow> frag_id e)"

definition buffered_name :: "(int \<times> Fragment) list \<Rightarrow> int \<Rightarrow> string option" where
  "buffered_name b i = (case map_get b i of None \<Rightarrow> None | Some e \<Rightarrow> frag_name e)"

definition buffered_arguments :: "(int \<times> Fragment) list \<Rightarrow> int \<Rightarrow> string" where
  "buffered_arguments b i = (case map_get b i of None \<Rightarrow> [] | Some e \<Rightarrow> frag_arguments e)"


section \<open>An instance of the platform\<close>

text \<open>
  The properties of the client are proved for every \<open>platform\<close>.  To run the model on
  concrete payloads, this section gives one: \<open>json_parse\<close> follows the JSON grammar on
  8-bit strings (the text of a string value is its UTF-8 bytes), and \<open>decode_json\<close>
  parses a \<open>data:\<close> payload and reads the typed fields of the chunk, taking a field of
  another type than the protocol's as absent.  It is used at the concrete inputs of the
  last sections only.
\<close>

definition isJsonSpace :: "char \<Rightarrow> bool" where
  "isJsonSpace c \<longleftrightarrow> (of_char c :: nat) \<in> {9, 10, 13, 32}"

definition skip_ws :: "string \<Rightarrow> string" where
  "skip_ws s = dropWhile isJsonSpace s"

definition isDigit :: "char \<Rightarrow> bool" where
  "isDigit c \<longleftrightarrow> 48 \<le> (of_char c :: nat) \<and> (of_char c :: nat) \<le> 57"

definition hex_digit :: "char \<Rightarrow> nat option" where
  "hex_digit c =
     (let n = (of_char c :: nat)
      in if 48 \<le> n \<and> n \<le> 57 then Some (n - 48)
         else if 65 \<le> n \<and> n \<le> 70 then Some (n - 55)
         else if 97 \<le> n \<and> n \<le> 102 then Some (n - 87)
         else None)"

fun hex_number :: "nat \<Rightarrow> string \<Rightarrow> nat option" where
  "hex_number acc [] = Some acc"
| "hex_number acc (c # cs) =
     (case hex_digit c of None \<Rightarrow> None | Some d \<Rightarrow> hex_number (16 * acc + d) cs)"

definition utf8 :: "nat \<Rightarrow> string" where
  "utf8 code =
     (if code < 128 then [char_of code]
      else if code < 2048 then [char_of (192 + code div 64), char_of (128 + code mod 64)]
      else [char_of (224 + code div 4096), char_of (128 + code div 64 mod 64),
            char_of (128 + code mod 64)])"

text \<open>The characters of a string value, after the opening quotation mark.\<close>

fun parse_string :: "string \<Rightarrow> string \<Rightarrow> (string \<times> string) option" where
  "parse_string acc [] = None"
| "parse_string acc (c # cs) =
     (if c = CHR 0x22 then Some (acc, cs)
      else if c = CHR 0x5C then
        (case cs of
           [] \<Rightarrow> None
         | e # rest \<Rightarrow>
             if e = CHR 0x22 \<or> e = CHR 0x5C \<or> e = CHR ''/'' then parse_string (acc @ [e]) rest
             else if e = CHR ''b'' then parse_string (acc @ [CHR 0x08]) rest
             else if e = CHR ''f'' then parse_string (acc @ [CHR 0x0C]) rest
             else if e = CHR ''n'' then parse_string (acc @ [CHR 0x0A]) rest
             else if e = CHR ''r'' then parse_string (acc @ [CHR 0x0D]) rest
             else if e = CHR ''t'' then parse_string (acc @ [CHR 0x09]) rest
             else if e = CHR ''u'' \<and> length rest \<ge> 4 then
               (case hex_number 0 (take 4 rest) of
                  None \<Rightarrow> None
                | Some code \<Rightarrow> parse_string (acc @ utf8 code) (drop 4 rest))
             else None)
      else if (of_char c :: nat) < 32 then None
      else parse_string (acc @ [c]) cs)"

text \<open>
  The longest number literal at the head of the text: a sign, an integer part without
  a leading zero, a fraction, an exponent.
\<close>

definition parse_number :: "string \<Rightarrow> (json \<times> string) option" where
  "parse_number s =
     (let sign = (if prefix ''-'' s then ''-'' else []);
          s1 = drop (length sign) s;
          whole = (if prefix ''0'' s1 then ''0'' else takeWhile isDigit s1);
          s2 = drop (length whole) s1;
          fraction = (if prefix ''.'' s2 \<and> takeWhile isDigit (drop 1 s2) \<noteq> []
                      then ''.'' @ takeWhile isDigit (drop 1 s2) else []);
          s3 = drop (length fraction) s2;
          mark = (if prefix ''e'' s3 \<or> prefix ''E'' s3 then take 1 s3 else []);
          s4 = drop (length mark) s3;
          esign = (if prefix ''+'' s4 \<or> prefix ''-'' s4 then take 1 s4 else []);
          s5 = drop (length esign) s4;
          exponent = (if mark \<noteq> [] \<and> takeWhile isDigit s5 \<noteq> []
                      then mark @ esign @ takeWhile isDigit s5 else []);
          s6 = drop (length exponent) s3
      in if whole = [] then None
         else Some (JNumber (sign @ whole @ fraction @ exponent), s6))"

text \<open>
  A value, the elements of an array after the first has been seen to exist, and the
  members of an object likewise.  The first argument bounds the depth of the
  recursion; \<open>json_parse\<close> starts it above the length of the text.
\<close>

fun parse_value :: "nat \<Rightarrow> string \<Rightarrow> (json \<times> string) option"
  and parse_elements :: "nat \<Rightarrow> json list \<Rightarrow> string \<Rightarrow> (json \<times> string) option"
  and parse_members :: "nat \<Rightarrow> (string \<times> json) list \<Rightarrow> string \<Rightarrow> (json \<times> string) option"
where
  "parse_value 0 s = None"
| "parse_value (Suc n) s =
     (case skip_ws s of
        [] \<Rightarrow> None
      | c # cs \<Rightarrow>
          if c = CHR 0x22 then
            (case parse_string [] cs of
               None \<Rightarrow> None
             | Some (str, rest) \<Rightarrow> Some (JString str, rest))
          else if c = CHR ''['' then
            (case skip_ws cs of
               [] \<Rightarrow> None
             | d # ds \<Rightarrow> if d = CHR '']'' then Some (JArray [], ds) else parse_elements n [] cs)
          else if c = CHR ''{'' then
            (case skip_ws cs of
               [] \<Rightarrow> None
             | d # ds \<Rightarrow> if d = CHR ''}'' then Some (JObject [], ds) else parse_members n [] cs)
          else if prefix ''true'' (c # cs) then Some (JBool True, drop 4 (c # cs))
          else if prefix ''false'' (c # cs) then Some (JBool False, drop 5 (c # cs))
          else if prefix ''null'' (c # cs) then Some (JNull, drop 4 (c # cs))
          else parse_number (c # cs))"
| "parse_elements 0 acc s = None"
| "parse_elements (Suc n) acc s =
     (case parse_value n s of
        None \<Rightarrow> None
      | Some (v, rest) \<Rightarrow>
          (case skip_ws rest of
             [] \<Rightarrow> None
           | c # cs \<Rightarrow>
               if c = CHR '','' then parse_elements n (acc @ [v]) cs
               else if c = CHR '']'' then Some (JArray (acc @ [v]), cs)
               else None))"
| "parse_members 0 acc s = None"
| "parse_members (Suc n) acc s =
     (case skip_ws s of
        [] \<Rightarrow> None
      | q # cs \<Rightarrow>
          if q \<noteq> CHR 0x22 then None
          else
            (case parse_string [] cs of
               None \<Rightarrow> None
             | Some (key, rest) \<Rightarrow>
                 (case skip_ws rest of
                    [] \<Rightarrow> None
                  | colon # rest1 \<Rightarrow>
                      if colon \<noteq> CHR '':'' then None
                      else
                        (case parse_value n rest1 of
                           None \<Rightarrow> None
                         | Some (v, rest2) \<Rightarrow>
                             (case skip_ws rest2 of
                                [] \<Rightarrow> None
                              | c # cs2 \<Rightarrow>
                                  if c = CHR '','' then parse_members n (map_set acc key v) cs2
                                  else if c = CHR ''}'' then Some (JObject (map_set acc key v), cs2)
                                  else None)))))"

definition json_parse :: "string \<Rightarrow> json option" where
  "json_parse s =
     (case parse_value (Suc (length s)) s of
        None \<Rightarrow> None
      | Some (v, rest) \<Rightarrow> if skip_ws rest = [] then Some v else None)"

text \<open>Reading the typed fields of a parsed chunk.\<close>

definition property :: "json \<Rightarrow> string \<Rightarrow> json option" where
  "property j k = (case j of JObject kvs \<Rightarrow> map_get kvs k | _ \<Rightarrow> None)"

definition string_property :: "json \<Rightarrow> string \<Rightarrow> string option" where
  "string_property j k = (case property j k of Some (JString s) \<Rightarrow> Some s | _ \<Rightarrow> None)"

definition index_property :: "json \<Rightarrow> string \<Rightarrow> int option" where
  "index_property j k =
     (case property j k of
        Some (JNumber digits) \<Rightarrow>
          if digits \<noteq> [] \<and> list_all isDigit digits
          then Some (int (foldl (\<lambda>acc c. 10 * acc + (of_char c - 48)) 0 digits))
          else None
      | _ \<Rightarrow> None)"

definition entry_of_json :: "json \<Rightarrow> ToolCallEntry" where
  "entry_of_json tc =
     \<lparr>tc_index = index_property tc ''index'',
      tc_id = string_property tc ''id'',
      function_name =
        (case property tc ''function'' of None \<Rightarrow> None | Some f \<Rightarrow> string_property f ''name''),
      function_arguments =
        (case property tc ''function'' of
           None \<Rightarrow> None
         | Some f \<Rightarrow> string_property f ''arguments'')\<rparr>"

definition delta_of_json :: "json \<Rightarrow> Delta option" where
  "delta_of_json chunk =
     (case property chunk ''choices'' of
        Some (JArray (choice # _)) \<Rightarrow>
          (case property choice ''delta'' of
             Some (JObject d) \<Rightarrow>
               Some \<lparr>content = string_property (JObject d) ''content'',
                     tool_calls =
                       (case property (JObject d) ''tool_calls'' of
                          Some (JArray tcs) \<Rightarrow> Some (map entry_of_json tcs)
                        | _ \<Rightarrow> None)\<rparr>
           | _ \<Rightarrow> None)
      | _ \<Rightarrow> None)"

definition decode_json :: "string \<Rightarrow> thrown + Delta option" where
  "decode_json data =
     (case json_parse data of
        None \<Rightarrow> Inl (Error ''SyntaxError'')
      | Some JNull \<Rightarrow> Inl (Error ''TypeError'')
      | Some chunk \<Rightarrow> Inr (delta_of_json chunk))"

text \<open>The instance, with a callback that never cancels and one that cancels at once.\<close>

definition quiet_platform :: platform where
  "quiet_platform = \<lparr>JSON_parse = json_parse, decode = decode_json, onChunk = (\<lambda>_. False)\<rparr>"


section \<open>Concrete inputs\<close>

definition DEFAULT_GEMINI_MODELS :: "GeminiModel list" where
  "DEFAULT_GEMINI_MODELS =
     [\<lparr>value = ''compound'', label = ''Compound'',
       defaultForRoles = Some [Chat, Rewrite], supportsImageGeneration = None\<rparr>,
      \<lparr>value = ''compound-mini'', label = ''Compound Mini'',
       defaultForRoles = Some [Summary], supportsImageGeneration = None\<rparr>,
      \<lparr>value = ''llama-3.3-70b-versatile'', label = ''Llama 3.3 70B Versatile'',
       defaultForRoles = Some [Completions], supportsImageGeneration = None\<rparr>,
      \<lparr>value = ''openai/gpt-oss-120b'', label = ''GPT OSS 120B'',
       defaultForRoles = None, supportsImageGeneration = None\<rparr>,
      \<lparr>value = ''moonshotai/kimi-k2-instruct-0905'', label = ''Kimi K2 Instruct 0905'',
       defaultForRoles = None, supportsImageGeneration = None\<rparr>,
      \<lparr>value = ''deepseek-r1-distill-llama-70b'', label = ''DeepSeek R1 Distill Llama 70B'',
       defaultForRoles = None, supportsImageGeneration = None\<rparr>,
      \<lparr>value = ''llama-3.1-8b-instant'', label = ''Llama 3.1 8B Instant'',
       defaultForRoles = None, supportsImageGeneration = None\<rparr>]"

definition model_a :: GeminiModel where
  "model_a = \<lparr>value = ''a'', label = ''A'', defaultForRoles = Some [Chat],
     supportsImageGeneration = None\<rparr>"

definition model_b :: GeminiModel where
  "model_b = \<lparr>value = ''b'', label = ''B'', defaultForRoles = Some [Summary],
     supportsImageGeneration = None\<rparr>"

definition example_settings :: ModelSettings where
  "example_settings =
     \<lparr>chatModelName = Some ''x'', summaryModelName = Some ''b'',
      completionsModelName = None, imageModelName = None\<rparr>"

definition image_settings :: ModelSettings where
  "image_settings =
     \<lparr>chatModelName = Some ''a'', summaryModelName = Some ''a'',
      completionsModelName = Some ''a'', imageModelName = Some ''old-image''\<rparr>"

definition guardrail_model :: GeminiModel where
  "guardrail_model =
     \<lparr>value = ''Llama-Guard-4'', label = ''Guard'', defaultForRoles = None,
      supportsImageGeneration = Some True\<rparr>"

definition transcription_model :: GeminiModel where
  "transcription_model =
     \<lparr>value = ''transcription-v1'', label = ''Transcription'', defaultForRoles = None,
      supportsImageGeneration = None\<rparr>"

definition filter_test_models :: "GeminiModel list" where
  "filter_test_models =
     [\<lparr>value = ''compound'', label = ''Compound'', defaultForRoles = None,
       supportsImageGeneration = None\<rparr>,
      \<lparr>value = ''flux-dev'', label = ''Flux Dev'', defaultForRoles = None,
       supportsImageGeneration = Some True\<rparr>,
      \<lparr>value = ''llava-vision'', label = ''Vision'', defaultForRoles = None,
       supportsImageGeneration = None\<rparr>,
      \<lparr>value = ''whisper-large-v3'', label = ''Whisper'', defaultForRoles = None,
       supportsImageGeneration = None\<rparr>]"

definition no_key_service :: service where
  "no_key_service = \<lparr>cache = None, apiKey = [], stored = None, requests = 0\<rparr>"

definition keyed_service :: service where
  "keyed_service = \<lparr>cache = None, apiKey = ''test-key'', stored = None, requests = 0\<rparr>"

definition old_result :: ModelDiscoveryResult where
  "old_result = \<lparr>models = [], lastUpdated = 0, success = True, error = None\<rparr>"

definition stale_service :: service where
  "stale_service =
     \<lparr>cache = Some old_result, apiKey = ''test-key'', stored = Some old_result, requests = 0\<rparr>"

definition env_500 :: "int \<Rightarrow> environment" where
  "env_500 now =
     \<lparr>clock_check = now, clock_stamp = now,
      fetch_outcome = Response False 500 ''Internal Server Error'' (JsonValue None),
      persist_outcome = None\<rparr>"

definition env_ok :: "int \<Rightarrow> environment" where
  "env_ok now =
     \<lparr>clock_check = now, clock_stamp = now,
      fetch_outcome = Response True 200 ''OK''
        (JsonValue (Some [\<lparr>entry_id = ''compound'', owned_by = ''groq''\<rparr>,
                          \<lparr>entry_id = ''whisper-large-v3'', owned_by = ''groq''\<rparr>])),
      persist_outcome = None\<rparr>"

definition hello_event :: string where
  \<open>hello_event = ''data: {"choices":[{"delta":{"content":"Hello "}}]}\<newline>\<newline>''\<close>

definition world_event :: string where
  \<open>world_event = ''data: {"choices":[{"delta":{"content":"World"}}]}\<newline>\<newline>''\<close>

definition done_event :: string where
  \<open>done_event = ''data: [DONE]\<newline>\<newline>''\<close>


definition tool_event_1 :: string where
  \<open>tool_event_1 = ''data: {"choices":[{"delta":{"tool_calls":[{"index":0,"id":"call_1","function":{"name":"add","arguments":"[10,"}}]}}]}\<newline>\<newline>''\<close>

definition tool_event_2 :: string where
  \<open>tool_event_2 = ''data: {"choices":[{"delta":{"tool_calls":[{"index":0,"function":{"arguments":"20,"}},{"index":1,"function":{"arguments":"[1]"}}]}}]}\<newline>\<newline>''\<close>

definition tool_event_3 :: string where
  \<open>tool_event_3 = ''data: {"choices":[{"delta":{"tool_calls":[{"index":0,"function":{"arguments":"30]"}}]}}]}\<newline>\<newline>''\<close>

definition quiet_read :: "string \<Rightarrow> read" where
  "quiet_read text = \<lparr>cancel_while_pending = False, outcome = Value text\<rparr>"


definition end_of_stream :: read where
  "end_of_stream = \<lparr>cancel_while_pending = False, outcome = Done\<rparr>"




definition bare_entry :: ToolCallEntry where
  "bare_entry =
     \<lparr>tc_index = Some 0, tc_id = Some ''call_1'', function_name = Some ''list_files'',
      function_arguments = None\<rparr>"

definition bare_message :: Message where
  "bare_message = \<lparr>message_content = None, message_tool_calls = Some [bare_entry]\<rparr>"


section \<open>Properties of the string primitives\<close>

lemma sublist_map_mono:
  assumes "sublist t s"
  shows "sublist (map f t) (map f s)"
proof -
  from assms obtain ps ss where "s = ps @ t @ ss"
    by (auto simp: sublist_def)
  then have "map f s = map f ps @ map f t @ map f ss"
    by simp
  then show ?thesis
    unfolding sublist_def by blast
qed

lemma includes_toLowerCase:
  assumes "includes_str s t" and "toLowerCase t = t"
  shows "includes_str (toLowerCase s) t"
proof -
  from assms(1) have "sublist (map lowerChar t) (map lowerChar s)"
    unfolding includes_str_def by (rule sublist_map_mono)
  with assms(2) show ?thesis
    by (simp add: includes_str_def toLowerCase_def)
qed

lemma lower_literals:
  "toLowerCase ''embedding'' = ''embedding''"
  "toLowerCase ''whisper'' = ''whisper''"
  "toLowerCase ''tts'' = ''tts''"
  "toLowerCase ''transcribe'' = ''transcribe''"
  "toLowerCase ''moderation'' = ''moderation''"
  "toLowerCase ''guard'' = ''guard''"
  "toLowerCase ''speech'' = ''speech''"
  "toLowerCase ''image'' = ''image''"
  "toLowerCase ''vision'' = ''vision''"
  "toLowerCase ''flux'' = ''flux''"
  by (simp_all add: toLowerCase_def lowerChar_def)


section \<open>Properties of the filter\<close>

lemma filter_member:
  "m \<in> set (filterModelsForVersion ms imageModelsOnly) \<longleftrightarrow>
     m \<in> set ms \<and> \<not> isSpecialized (toLowerCase (value m)) \<and>
     (isImageModel m (toLowerCase (value m)) \<longleftrightarrow> imageModelsOnly)"
  by (auto simp: filterModelsForVersion_def Let_def)

text \<open>
  C3, as the code has it.  The substrings the filter rejects are \<open>embedding\<close>,
  \<open>whisper\<close>, \<open>tts\<close>, \<open>transcribe\<close>, \<open>moderation\<close>, \<open>guard\<close> and \<open>speech\<close>.  A model
  whose identifier contains one of them, as written or after lower-casing, is in
  neither output of \<open>filterModelsForVersion\<close>, whatever its image-capability flag is.
\<close>

theorem C3_denylisted_excluded:
  assumes "d \<in> {''embedding'', ''whisper'', ''tts'', ''transcribe'',
                 ''moderation'', ''guard'', ''speech''}"
    and "includes_str (value m) d \<or> includes_str (toLowerCase (value m)) d"
  shows "m \<notin> set (filterModelsForVersion ms imageModelsOnly)"
proof -
  from assms(1) have low: "toLowerCase d = d"
    by (auto simp: lower_literals)
  with assms(2) have "includes_str (toLowerCase (value m)) d"
    by (auto intro: includes_toLowerCase)
  with assms(1) have "isSpecialized (toLowerCase (value m))"
    unfolding isSpecialized_def by blast
  then show ?thesis
    by (simp add: filter_member)
qed

theorem C3_denylisted_excluded_witness:
  "''guard'' \<in> {''embedding'', ''whisper'', ''tts'', ''transcribe'',
                 ''moderation'', ''guard'', ''speech''} \<and>
   includes_str (toLowerCase (value guardrail_model)) ''guard'' \<and>
   guardrail_model \<notin> set (filterModelsForVersion [guardrail_model] True) \<and>
   guardrail_model \<notin> set (filterModelsForVersion [guardrail_model] False)"
proof -
  have inc: "includes_str (toLowerCase (value guardrail_model)) ''guard''"
    by code_simp
  have mem: "''guard'' \<in> {''embedding'', ''whisper'', ''tts'', ''transcribe'',
                 ''moderation'', ''guard'', ''speech''}"
    by simp
  from inc have either: "includes_str (value guardrail_model) ''guard'' \<or>
      includes_str (toLowerCase (value guardrail_model)) ''guard''"
    by simp
  show ?thesis
    using inc mem
      C3_denylisted_excluded [OF mem either, of "[guardrail_model]" True]
      C3_denylisted_excluded [OF mem either, of "[guardrail_model]" False]
    by blast
qed

text \<open>
  C3, as the claim words it, fails: \<open>transcription\<close> is not a substring the filter
  looks for (it looks for \<open>transcribe\<close>), so a model named \<open>transcription-v1\<close> is kept
  in the text-mode output.
\<close>

theorem C3_transcription_counterexample:
  "includes_str (value transcription_model) ''transcription'' \<and>
   filterModelsForVersion [transcription_model] False = [transcription_model]"
  by (simp add: transcription_model_def filterModelsForVersion_def isSpecialized_def
      isImageModel_def includes_str_def toLowerCase_def lowerChar_def sublist_Cons_right)


text \<open>
  C4.  The image-mode and the text-mode output share no model; together they hold
  exactly the models of the input that the denylist leaves (as sets, and with
  multiplicities); a surviving model goes to the image-mode output, and not to the
  text-mode one, when its flag is set or its identifier contains \<open>image\<close>, \<open>vision\<close>
  or \<open>flux\<close> (as written or after lower-casing); every other surviving model goes to
  the text-mode output only.
\<close>

theorem C4_partition:
  "set (filterModelsForVersion ms True) \<inter> set (filterModelsForVersion ms False) = {} \<and>
   set (filterModelsForVersion ms True) \<union> set (filterModelsForVersion ms False) =
     {m \<in> set ms. \<not> isSpecialized (toLowerCase (value m))} \<and>
   mset (filterModelsForVersion ms True) + mset (filterModelsForVersion ms False) =
     mset (filter (\<lambda>m. \<not> isSpecialized (toLowerCase (value m))) ms) \<and>
   (\<forall>m \<in> set ms. \<not> isSpecialized (toLowerCase (value m)) \<longrightarrow>
      (if supportsImageGeneration m = Some True \<or>
          (\<exists>w \<in> {''image'', ''vision'', ''flux''}.
             includes_str (value m) w \<or> includes_str (toLowerCase (value m)) w)
       then m \<in> set (filterModelsForVersion ms True) \<and>
            m \<notin> set (filterModelsForVersion ms False)
       else m \<in> set (filterModelsForVersion ms False) \<and>
            m \<notin> set (filterModelsForVersion ms True)))"
proof -
  have disj: "set (filterModelsForVersion ms True) \<inter>
      set (filterModelsForVersion ms False) = {}"
    by (auto simp: filter_member)
  have un: "set (filterModelsForVersion ms True) \<union> set (filterModelsForVersion ms False) =
      {m \<in> set ms. \<not> isSpecialized (toLowerCase (value m))}"
    by (auto simp: filter_member)
  have multi: "mset (filterModelsForVersion ms True) + mset (filterModelsForVersion ms False) =
      mset (filter (\<lambda>m. \<not> isSpecialized (toLowerCase (value m))) ms)"
    by (induction ms) (simp_all add: filterModelsForVersion_def Let_def)
  have img: "isImageModel m (toLowerCase (value m)) \<longleftrightarrow>
      supportsImageGeneration m = Some True \<or>
      (\<exists>w \<in> {''image'', ''vision'', ''flux''}.
         includes_str (value m) w \<or> includes_str (toLowerCase (value m)) w)" for m
  proof -
    have "includes_str (value m) w \<Longrightarrow> w \<in> {''image'', ''vision'', ''flux''} \<Longrightarrow>
        includes_str (toLowerCase (value m)) w" for w
      by (rule includes_toLowerCase) (auto simp: lower_literals)
    then show ?thesis
      unfolding isImageModel_def by blast
  qed
  have cls: "\<forall>m \<in> set ms. \<not> isSpecialized (toLowerCase (value m)) \<longrightarrow>
      (if supportsImageGeneration m = Some True \<or>
          (\<exists>w \<in> {''image'', ''vision'', ''flux''}.
             includes_str (value m) w \<or> includes_str (toLowerCase (value m)) w)
       then m \<in> set (filterModelsForVersion ms True) \<and>
            m \<notin> set (filterModelsForVersion ms False)
       else m \<in> set (filterModelsForVersion ms False) \<and>
            m \<notin> set (filterModelsForVersion ms True))"
    unfolding img [symmetric] by (simp add: filter_member)
  from disj un multi cls show ?thesis
    by blast
qed

theorem C4_partition_witness:
  "filterModelsForVersion filter_test_models True =
     [filter_test_models ! 1, filter_test_models ! 2] \<and>
   filterModelsForVersion filter_test_models False = [filter_test_models ! 0] \<and>
   set (filterModelsForVersion filter_test_models True) \<union>
     set (filterModelsForVersion filter_test_models False) =
     {m \<in> set filter_test_models. \<not> isSpecialized (toLowerCase (value m))}"
proof -
  have "filterModelsForVersion filter_test_models True =
     [filter_test_models ! 1, filter_test_models ! 2]"
    by code_simp
  moreover have "filterModelsForVersion filter_test_models False = [filter_test_models ! 0]"
    by code_simp
  ultimately show ?thesis
    using C4_partition [of filter_test_models] by simp
qed

section \<open>Properties of the role resolver\<close>

lemma find_first:
  assumes "\<forall>p \<in> set pre. \<not> P p" and "P m"
  shows "find P (pre @ m # post) = Some m"
  using assms by (induction pre) simp_all

lemma find_none:
  "find P xs = None \<longleftrightarrow> (\<forall>x \<in> set xs. \<not> P x)"
  by (induction xs) simp_all

text \<open>
  C5.  For every registry and role: if \<open>m\<close> is the first model in registry order whose
  \<open>defaultForRoles\<close> contains the role, the resolver returns the identifier of \<open>m\<close>
  (so also when \<open>m\<close> is the only such model); if no model claims the role and the
  registry is not empty, it returns the identifier of the first model; and it raises
  the empty-registry error exactly when the registry is empty (it raises nothing else).
\<close>

theorem C5_getDefaultModelForRole:
  "(\<forall>pre m post rs.
      GEMINI_MODELS = pre @ m # post \<and>
      (\<forall>p \<in> set pre. \<forall>ps. defaultForRoles p = Some ps \<longrightarrow> role \<notin> set ps) \<and>
      defaultForRoles m = Some rs \<and> role \<in> set rs \<longrightarrow>
      getDefaultModelForRole GEMINI_MODELS role = Inr (value m)) \<and>
   (\<forall>m rs.
      m \<in> set GEMINI_MODELS \<and> defaultForRoles m = Some rs \<and> role \<in> set rs \<and>
      (\<forall>m' \<in> set GEMINI_MODELS. \<forall>rs'.
          defaultForRoles m' = Some rs' \<and> role \<in> set rs' \<longrightarrow> m' = m) \<longrightarrow>
      getDefaultModelForRole GEMINI_MODELS role = Inr (value m)) \<and>
   (\<forall>m0 rest.
      GEMINI_MODELS = m0 # rest \<and>
      (\<forall>p \<in> set GEMINI_MODELS. \<forall>ps. defaultForRoles p = Some ps \<longrightarrow> role \<notin> set ps) \<longrightarrow>
      getDefaultModelForRole GEMINI_MODELS role = Inr (value m0)) \<and>
   ((\<exists>e. getDefaultModelForRole GEMINI_MODELS role = Inl e) \<longleftrightarrow> GEMINI_MODELS = []) \<and>
   (getDefaultModelForRole GEMINI_MODELS role = Inl EmptyRegistry \<longleftrightarrow> GEMINI_MODELS = [])"
proof -
  have claims: "claimsRole role m \<longleftrightarrow> (\<exists>rs. defaultForRoles m = Some rs \<and> role \<in> set rs)" for m
    by (cases "defaultForRoles m") (simp_all add: claimsRole_def)
  have first: "getDefaultModelForRole GEMINI_MODELS role = Inr (value m)"
    if "GEMINI_MODELS = pre @ m # post"
      and "\<forall>p \<in> set pre. \<forall>ps. defaultForRoles p = Some ps \<longrightarrow> role \<notin> set ps"
      and "defaultForRoles m = Some rs" and "role \<in> set rs" for pre m post rs
  proof -
    from that(2) have "\<forall>p \<in> set pre. \<not> claimsRole role p"
      by (auto simp: claims)
    moreover from that(3,4) have "claimsRole role m"
      by (auto simp: claims)
    ultimately have "find (claimsRole role) (pre @ m # post) = Some m"
      by (rule find_first)
    with that(1) show ?thesis
      by (simp add: getDefaultModelForRole_def)
  qed
  have unique: "getDefaultModelForRole GEMINI_MODELS role = Inr (value m)"
    if "m \<in> set GEMINI_MODELS" and "defaultForRoles m = Some rs" and "role \<in> set rs"
      and "\<forall>m' \<in> set GEMINI_MODELS. \<forall>rs'.
          defaultForRoles m' = Some rs' \<and> role \<in> set rs' \<longrightarrow> m' = m" for m rs
  proof -
    from that(1) obtain pre post where split: "GEMINI_MODELS = pre @ m # post" and "m \<notin> set pre"
      by (auto dest: split_list_first)
    with that(4) have "\<forall>p \<in> set pre. \<forall>ps. defaultForRoles p = Some ps \<longrightarrow> role \<notin> set ps"
      by auto
    then show ?thesis
      using first [OF split _ that(2,3)] by blast
  qed
  have fallback: "getDefaultModelForRole GEMINI_MODELS role = Inr (value m0)"
    if "GEMINI_MODELS = m0 # rest"
      and "\<forall>p \<in> set GEMINI_MODELS. \<forall>ps. defaultForRoles p = Some ps \<longrightarrow> role \<notin> set ps"
    for m0 rest
  proof -
    from that(2) have "find (claimsRole role) GEMINI_MODELS = None"
      by (auto simp: find_none claims)
    with that(1) show ?thesis
      by (simp add: getDefaultModelForRole_def)
  qed
  have raises: "(\<exists>e. getDefaultModelForRole GEMINI_MODELS role = Inl e) \<longleftrightarrow> GEMINI_MODELS = []"
    by (cases GEMINI_MODELS)
      (auto simp: getDefaultModelForRole_def split: option.splits)
  have empty: "getDefaultModelForRole GEMINI_MODELS role = Inl EmptyRegistry \<longleftrightarrow>
      GEMINI_MODELS = []"
    by (cases GEMINI_MODELS)
      (auto simp: getDefaultModelForRole_def split: option.splits)
  from first unique fallback raises empty show ?thesis
    by blast
qed

text \<open>
  C5 at the registry \<open>[a, b]\<close>: role \<open>summary\<close> is claimed by \<open>b\<close> only, role \<open>image\<close>
  by no model; the empty registry raises.
\<close>

theorem C5_getDefaultModelForRole_witness:
  "getDefaultModelForRole [model_a, model_b] Summary = Inr ''b'' \<and>
   getDefaultModelForRole [model_a, model_b] Image = Inr ''a'' \<and>
   getDefaultModelForRole [] Chat = Inl EmptyRegistry"
proof -
  have "[model_a, model_b] = [model_a] @ model_b # [] \<and>
      (\<forall>p \<in> set [model_a]. \<forall>ps. defaultForRoles p = Some ps \<longrightarrow> Summary \<notin> set ps) \<and>
      defaultForRoles model_b = Some [Summary] \<and> Summary \<in> set [Summary]"
    by (simp add: model_a_def model_b_def)
  with C5_getDefaultModelForRole [of "[model_a, model_b]" Summary]
  have "getDefaultModelForRole [model_a, model_b] Summary = Inr (value model_b)"
    by blast
  then have summary: "getDefaultModelForRole [model_a, model_b] Summary = Inr ''b''"
    by (simp add: model_b_def)
  have "[model_a, model_b] = model_a # [model_b] \<and>
      (\<forall>p \<in> set [model_a, model_b]. \<forall>ps. defaultForRoles p = Some ps \<longrightarrow> Image \<notin> set ps)"
    by (simp add: model_a_def model_b_def)
  with C5_getDefaultModelForRole [of "[model_a, model_b]" Image]
  have "getDefaultModelForRole [model_a, model_b] Image = Inr (value model_a)"
    by blast
  then have image: "getDefaultModelForRole [model_a, model_b] Image = Inr ''a''"
    by (simp add: model_a_def)
  from C5_getDefaultModelForRole [of "[]" Chat]
  have "getDefaultModelForRole [] Chat = Inl EmptyRegistry"
    by blast
  with summary image show ?thesis
    by blast
qed

section \<open>Properties of the settings migration\<close>

lemma areSetsEqual_iff:
  assumes "distinct a" and "distinct b"
  shows "areSetsEqual a b \<longleftrightarrow> set a = set b"
proof
  assume eq: "areSetsEqual a b"
  then have len: "length a = length b" and sub: "set a \<subseteq> set b"
    by (auto simp: areSetsEqual_def list_all_iff)
  from assms len have "card (set a) = card (set b)"
    by (simp add: distinct_card)
  with sub show "set a = set b"
    by (simp add: card_subset_eq)
next
  assume eq: "set a = set b"
  with assms have "length a = length b"
    by (metis distinct_card)
  with eq show "areSetsEqual a b"
    by (simp add: areSetsEqual_def list_all_iff)
qed

lemma detectModelChanges_iff:
  "detectModelChanges current previous \<longleftrightarrow>
     length current \<noteq> length previous \<or> value ` set current \<noteq> value ` set previous"
  by (simp add: detectModelChanges_def Let_def areSetsEqual_iff)

lemma default_nonempty:
  "GEMINI_MODELS \<noteq> [] \<Longrightarrow> \<exists>d. getDefaultModelForRole GEMINI_MODELS role = Inr d"
  by (cases GEMINI_MODELS) (auto simp: getDefaultModelForRole_def split: option.splits)

lemma getUpdated_nonempty:
  fixes settings :: "'a ModelSettings_scheme"
  assumes "getDefaultModelForRole current Chat = Inr dc"
    and "getDefaultModelForRole current Summary = Inr ds"
    and "getDefaultModelForRole current Completions = Inr dm"
  shows "\<exists>r. getUpdatedModelSettings current settings = Inr r \<and>
         chatModelName (updatedSettings r) =
           (case chatModelName settings of
              Some n \<Rightarrow> if n \<noteq> [] \<and> n \<in> value ` set current then Some n else Some dc
            | None \<Rightarrow> Some dc) \<and>
         summaryModelName (updatedSettings r) =
           (case summaryModelName settings of
              Some n \<Rightarrow> if n \<noteq> [] \<and> n \<in> value ` set current then Some n else Some ds
            | None \<Rightarrow> Some ds) \<and>
         completionsModelName (updatedSettings r) =
           (case completionsModelName settings of
              Some n \<Rightarrow> if n \<noteq> [] \<and> n \<in> value ` set current then Some n else Some dm
            | None \<Rightarrow> Some dm) \<and>
         imageModelName (updatedSettings r) =
           (case imageModelName settings of
              Some n \<Rightarrow> if n \<noteq> [] \<and> n \<notin> value ` set current then Some [] else Some n
            | None \<Rightarrow> None) \<and>
         ModelSettings.more (updatedSettings r) = ModelSettings.more settings \<and>
         (settingsChanged r \<longleftrightarrow>
            (\<forall>n. chatModelName settings = Some n \<longrightarrow> n = [] \<or> n \<notin> value ` set current) \<or>
            (\<forall>n. summaryModelName settings = Some n \<longrightarrow> n = [] \<or> n \<notin> value ` set current) \<or>
            (\<forall>n. completionsModelName settings = Some n \<longrightarrow> n = [] \<or> n \<notin> value ` set current) \<or>
            (\<exists>n. imageModelName settings = Some n \<and> n \<noteq> [] \<and> n \<notin> value ` set current))"
  using assms
  by (auto simp: getUpdatedModelSettings_def updateChat_def updateSummary_def
      updateCompletions_def updateImage_def needsUpdate_def Let_def split: option.splits)


text \<open>
  C6, as the code has it.  \<open>updateModels\<close> detects a change exactly when the fresh list
  and the registered list differ in length or in their sets of identifiers.  With no
  change it leaves the registry alone and returns the settings it was given,
  \<open>settingsChanged = false\<close> and no change description.  With a change and a fresh
  list that is not empty it replaces the registry by the fresh list and returns
  settings in which: the chat, summary and completions names are kept when they are
  non-empty identifiers of the fresh list and are otherwise (absent, empty or no
  longer present) set to the default of their role in the fresh list; the image name
  is cleared to the empty string when it is non-empty and no longer present, and is
  otherwise kept; every other setting is kept; \<open>settingsChanged\<close> tells whether one of
  the four names was rewritten.  With a change and an empty fresh list it replaces the
  registry and raises the empty-registry error.
\<close>

theorem C6_updateModels:
  fixes settings :: "'a ModelSettings_scheme"
  shows
  "(detectModelChanges current previous \<longleftrightarrow>
      length current \<noteq> length previous \<or> value ` set current \<noteq> value ` set previous) \<and>
   (\<not> detectModelChanges current previous \<longrightarrow>
      updateModels current previous settings =
        (previous, Inr \<lparr>updatedSettings = settings, settingsChanged = False,
                        changedSettingsInfo = []\<rparr>)) \<and>
   (detectModelChanges current previous \<and> current = [] \<longrightarrow>
      updateModels current previous settings = ([], Inl EmptyRegistry)) \<and>
   (detectModelChanges current previous \<and> current \<noteq> [] \<longrightarrow>
      (\<exists>r dc ds dm.
         updateModels current previous settings = (current, Inr r) \<and>
         getDefaultModelForRole current Chat = Inr dc \<and>
         getDefaultModelForRole current Summary = Inr ds \<and>
         getDefaultModelForRole current Completions = Inr dm \<and>
         chatModelName (updatedSettings r) =
           (case chatModelName settings of
              Some n \<Rightarrow> if n \<noteq> [] \<and> n \<in> value ` set current then Some n else Some dc
            | None \<Rightarrow> Some dc) \<and>
         summaryModelName (updatedSettings r) =
           (case summaryModelName settings of
              Some n \<Rightarrow> if n \<noteq> [] \<and> n \<in> value ` set current then Some n else Some ds
            | None \<Rightarrow> Some ds) \<and>
         completionsModelName (updatedSettings r) =
           (case completionsModelName settings of
              Some n \<Rightarrow> if n \<noteq> [] \<and> n \<in> value ` set current then Some n else Some dm
            | None \<Rightarrow> Some dm) \<and>
         imageModelName (updatedSettings r) =
           (case imageModelName settings of
              Some n \<Rightarrow> if n \<noteq> [] \<and> n \<notin> value ` set current then Some [] else Some n
            | None \<Rightarrow> None) \<and>
         ModelSettings.more (updatedSettings r) = ModelSettings.more settings \<and>
         (settingsChanged r \<longleftrightarrow>
            (\<forall>n. chatModelName settings = Some n \<longrightarrow> n = [] \<or> n \<notin> value ` set current) \<or>
            (\<forall>n. summaryModelName settings = Some n \<longrightarrow> n = [] \<or> n \<notin> value ` set current) \<or>
            (\<forall>n. completionsModelName settings = Some n \<longrightarrow> n = [] \<or> n \<notin> value ` set current) \<or>
            (\<exists>n. imageModelName settings = Some n \<and> n \<noteq> [] \<and> n \<notin> value ` set current))))"
proof (intro conjI impI)
  show "detectModelChanges current previous \<longleftrightarrow>
      length current \<noteq> length previous \<or> value ` set current \<noteq> value ` set previous"
    by (rule detectModelChanges_iff)
next
  assume "\<not> detectModelChanges current previous"
  then show "updateModels current previous settings =
        (previous, Inr \<lparr>updatedSettings = settings, settingsChanged = False,
                        changedSettingsInfo = []\<rparr>)"
    by (simp add: updateModels_def)
next
  assume "detectModelChanges current previous \<and> current = []"
  then have "detectModelChanges [] previous" and "current = []"
    by auto
  then show "updateModels current previous settings = ([], Inl EmptyRegistry)"
    by (simp add: updateModels_def getUpdatedModelSettings_def updateChat_def
        needsUpdate_def getDefaultModelForRole_def split: option.splits)
next
  assume a: "detectModelChanges current previous \<and> current \<noteq> []"
  then have ne: "current \<noteq> []"
    by simp
  from default_nonempty [OF ne, of Chat] obtain dc
    where dc: "getDefaultModelForRole current Chat = Inr dc" ..
  from default_nonempty [OF ne, of Summary] obtain ds
    where ds: "getDefaultModelForRole current Summary = Inr ds" ..
  from default_nonempty [OF ne, of Completions] obtain dm
    where dm: "getDefaultModelForRole current Completions = Inr dm" ..
  note d = dc ds dm
  from a have um: "updateModels current previous settings =
      (current, getUpdatedModelSettings current settings)"
    by (simp add: updateModels_def)
  show "\<exists>r dc ds dm.
         updateModels current previous settings = (current, Inr r) \<and>
         getDefaultModelForRole current Chat = Inr dc \<and>
         getDefaultModelForRole current Summary = Inr ds \<and>
         getDefaultModelForRole current Completions = Inr dm \<and>
         chatModelName (updatedSettings r) =
           (case chatModelName settings of
              Some n \<Rightarrow> if n \<noteq> [] \<and> n \<in> value ` set current then Some n else Some dc
            | None \<Rightarrow> Some dc) \<and>
         summaryModelName (updatedSettings r) =
           (case summaryModelName settings of
              Some n \<Rightarrow> if n \<noteq> [] \<and> n \<in> value ` set current then Some n else Some ds
            | None \<Rightarrow> Some ds) \<and>
         completionsModelName (updatedSettings r) =
           (case completionsModelName settings of
              Some n \<Rightarrow> if n \<noteq> [] \<and> n \<in> value ` set current then Some n else Some dm
            | None \<Rightarrow> Some dm) \<and>
         imageModelName (updatedSettings r) =
           (case imageModelName settings of
              Some n \<Rightarrow> if n \<noteq> [] \<and> n \<notin> value ` set current then Some [] else Some n
            | None \<Rightarrow> None) \<and>
         ModelSettings.more (updatedSettings r) = ModelSettings.more settings \<and>
         (settingsChanged r \<longleftrightarrow>
            (\<forall>n. chatModelName settings = Some n \<longrightarrow> n = [] \<or> n \<notin> value ` set current) \<or>
            (\<forall>n. summaryModelName settings = Some n \<longrightarrow> n = [] \<or> n \<notin> value ` set current) \<or>
            (\<forall>n. completionsModelName settings = Some n \<longrightarrow> n = [] \<or> n \<notin> value ` set current) \<or>
            (\<exists>n. imageModelName settings = Some n \<and> n \<noteq> [] \<and> n \<notin> value ` set current))"
    unfolding um using d
    by (auto simp: getUpdatedModelSettings_def updateChat_def updateSummary_def
        updateCompletions_def updateImage_def needsUpdate_def Let_def split: option.splits)
qed

text \<open>
  The example of the claim: the fresh list is \<open>[a, b]\<close> (\<open>a\<close> the chat default, \<open>b\<close>
  the summary default), the registry holds the seven built-in models, the settings
  are \<open>{chatModelName: "x", summaryModelName: "b"}\<close>.
\<close>

theorem C6_updateModels_witness:
  "detectModelChanges [model_a, model_b] DEFAULT_GEMINI_MODELS \<and>
   (\<exists>r. updateModels [model_a, model_b] DEFAULT_GEMINI_MODELS example_settings =
           ([model_a, model_b], Inr r) \<and>
        chatModelName (updatedSettings r) = Some ''a'' \<and>
        summaryModelName (updatedSettings r) = Some ''b'' \<and>
        settingsChanged r) \<and>
   updateModels DEFAULT_GEMINI_MODELS DEFAULT_GEMINI_MODELS example_settings =
     (DEFAULT_GEMINI_MODELS,
      Inr \<lparr>updatedSettings = example_settings, settingsChanged = False,
           changedSettingsInfo = []\<rparr>)"
proof -
  have len: "length [model_a, model_b] \<noteq> length DEFAULT_GEMINI_MODELS"
    by (simp add: DEFAULT_GEMINI_MODELS_def)
  with C6_updateModels [of "[model_a, model_b]" DEFAULT_GEMINI_MODELS example_settings,
      THEN conjunct1]
  have det: "detectModelChanges [model_a, model_b] DEFAULT_GEMINI_MODELS"
    by simp
  have dc: "getDefaultModelForRole [model_a, model_b] Chat = Inr ''a''"
    by (simp add: getDefaultModelForRole_def claimsRole_def model_a_def)
  have ds: "getDefaultModelForRole [model_a, model_b] Summary = Inr ''b''"
    by (simp add: getDefaultModelForRole_def claimsRole_def model_a_def model_b_def)
  from det have hyp: "detectModelChanges [model_a, model_b] DEFAULT_GEMINI_MODELS \<and>
      [model_a, model_b] \<noteq> []"
    by simp
  note step = C6_updateModels [of "[model_a, model_b]" DEFAULT_GEMINI_MODELS example_settings,
      THEN conjunct2, THEN conjunct2, THEN conjunct2, THEN mp, OF hyp]
  then obtain r dc' ds' where
    upd: "updateModels [model_a, model_b] DEFAULT_GEMINI_MODELS example_settings =
           ([model_a, model_b], Inr r)"
    and dc': "getDefaultModelForRole [model_a, model_b] Chat = Inr dc'"
    and ds': "getDefaultModelForRole [model_a, model_b] Summary = Inr ds'"
    and chat: "chatModelName (updatedSettings r) =
           (case chatModelName example_settings of
              Some n \<Rightarrow> if n \<noteq> [] \<and> n \<in> value ` set [model_a, model_b] then Some n
                else Some dc'
            | None \<Rightarrow> Some dc')"
    and summary: "summaryModelName (updatedSettings r) =
           (case summaryModelName example_settings of
              Some n \<Rightarrow> if n \<noteq> [] \<and> n \<in> value ` set [model_a, model_b] then Some n
                else Some ds'
            | None \<Rightarrow> Some ds')"
    and changed: "settingsChanged r \<longleftrightarrow>
            (\<forall>n. chatModelName example_settings = Some n \<longrightarrow>
               n = [] \<or> n \<notin> value ` set [model_a, model_b]) \<or>
            (\<forall>n. summaryModelName example_settings = Some n \<longrightarrow>
               n = [] \<or> n \<notin> value ` set [model_a, model_b]) \<or>
            (\<forall>n. completionsModelName example_settings = Some n \<longrightarrow>
               n = [] \<or> n \<notin> value ` set [model_a, model_b]) \<or>
            (\<exists>n. imageModelName example_settings = Some n \<and> n \<noteq> [] \<and>
               n \<notin> value ` set [model_a, model_b])"
    by (elim exE conjE)
  from dc dc' have "dc' = ''a''"
    by simp
  with chat have c: "chatModelName (updatedSettings r) = Some ''a''"
    by (simp add: example_settings_def model_a_def model_b_def)
  from summary have s: "summaryModelName (updatedSettings r) = Some ''b''"
    by (simp add: example_settings_def model_a_def model_b_def)
  from changed have "settingsChanged r"
    by (simp add: example_settings_def)
  with upd c s
  have "\<exists>r. updateModels [model_a, model_b] DEFAULT_GEMINI_MODELS example_settings =
           ([model_a, model_b], Inr r) \<and>
        chatModelName (updatedSettings r) = Some ''a'' \<and>
        summaryModelName (updatedSettings r) = Some ''b'' \<and>
        settingsChanged r"
    by blast
  moreover
  from C6_updateModels [of DEFAULT_GEMINI_MODELS DEFAULT_GEMINI_MODELS example_settings,
      THEN conjunct1]
  have same: "\<not> detectModelChanges DEFAULT_GEMINI_MODELS DEFAULT_GEMINI_MODELS"
    by simp
  note C6_updateModels [of DEFAULT_GEMINI_MODELS DEFAULT_GEMINI_MODELS example_settings,
      THEN conjunct2, THEN conjunct1, THEN mp, OF same]
  then have "updateModels DEFAULT_GEMINI_MODELS DEFAULT_GEMINI_MODELS example_settings =
     (DEFAULT_GEMINI_MODELS,
      Inr \<lparr>updatedSettings = example_settings, settingsChanged = False,
           changedSettingsInfo = []\<rparr>)" .
  ultimately show ?thesis
    using det by blast
qed

text \<open>
  C6, as the claim words it, fails on the image setting: with fresh list \<open>[a]\<close> and
  \<open>imageModelName = "old-image"\<close>, the name is cleared to the empty string, although
  the default of role \<open>image\<close> in the fresh list is \<open>a\<close>.
\<close>

theorem C6_image_counterexample:
  "updateModels [model_a] DEFAULT_GEMINI_MODELS image_settings =
     ([model_a],
      Inr \<lparr>updatedSettings = image_settings\<lparr>imageModelName := Some []\<rparr>,
           settingsChanged = True,
           changedSettingsInfo =
             [''Image model '' @ quoted (Some ''old-image'') @
              '' is not available on Groq and was cleared.'']\<rparr>) \<and>
   getDefaultModelForRole [model_a] Image = Inr ''a''"
  by (simp add: updateModels_def detectModelChanges_def DEFAULT_GEMINI_MODELS_def
      getUpdatedModelSettings_def updateChat_def updateSummary_def updateCompletions_def
      updateImage_def needsUpdate_def getDefaultModelForRole_def claimsRole_def
      model_a_def image_settings_def Let_def)

section \<open>Properties of model discovery\<close>

lemma fetch_requests:
  "requests (fst (fetchModelsFromAPI s env)) = requests s + (if apiKey s = [] then 0 else 1)"
  by (simp add: fetchModelsFromAPI_def Let_def split: fetch_result.splits body.splits)

lemma fetch_keeps:
  "cache (fst (fetchModelsFromAPI s env)) = cache s \<and>
   stored (fst (fetchModelsFromAPI s env)) = stored s \<and>
   apiKey (fst (fetchModelsFromAPI s env)) = apiKey s"
  by (simp add: fetchModelsFromAPI_def Let_def split: fetch_result.splits body.splits)

lemma fetch_ok:
  assumes "apiKey s \<noteq> []" and "fetch_outcome env = Response True status statusText (JsonValue d)"
  shows "fetchModelsFromAPI s env =
     (s\<lparr>requests := requests s + 1\<rparr>,
      Inr (map toGoogleModel
            (filter isGenerativeModel (case d of None \<Rightarrow> [] | Some entries \<Rightarrow> entries))))"
  using assms by (simp add: fetchModelsFromAPI_def Let_def)

lemma discover_hit:
  assumes "cache s = Some c" and "clock_check env - lastUpdated c < 86400000"
  shows "discoverModels False s env = (s, Inr c)"
  using assms by (simp add: discoverModels_def isCacheValid_def CACHE_DURATION_def)

lemma discover_requests:
  assumes "forceRefresh \<or> \<not> isCacheValid s env"
  shows "requests (fst (discoverModels forceRefresh s env)) =
     requests s + (if apiKey s = [] then 0 else 1)"
proof -
  obtain s1 f where f: "fetchModelsFromAPI s env = (s1, f)"
    by (cases "fetchModelsFromAPI s env")
  with fetch_requests [of s env]
  have "requests s1 = requests s + (if apiKey s = [] then 0 else 1)"
    by simp
  with assms f show ?thesis
    by (auto simp: discoverModels_def discoverModels_try_def persistCache_def Let_def
        split: sum.splits option.splits)
qed

lemma discover_fresh:
  assumes "forceRefresh \<or> \<not> isCacheValid s env"
    and "apiKey s \<noteq> []"
    and "fetch_outcome env = Response True status statusText (JsonValue d)"
  shows "\<exists>s'. discoverModels forceRefresh s env =
      (s', Inr \<lparr>models = map toGoogleModel
                   (filter isGenerativeModel (case d of None \<Rightarrow> [] | Some entries \<Rightarrow> entries)),
                lastUpdated = clock_stamp env, success = True, error = None\<rparr>) \<and>
     cache s' = Some \<lparr>models = map toGoogleModel
                   (filter isGenerativeModel (case d of None \<Rightarrow> [] | Some entries \<Rightarrow> entries)),
                lastUpdated = clock_stamp env, success = True, error = None\<rparr> \<and>
     requests s' = requests s + 1"
  using assms(1) fetch_ok [OF assms(2,3)]
  by (auto simp: discoverModels_def discoverModels_try_def persistCache_def Let_def
      split: option.splits)

lemma discover_total:
  "\<exists>s' r. discoverModels forceRefresh s env = (s', Inr r)"
  by (auto simp: discoverModels_def isCacheValid_def Let_def
      split: prod.splits sum.splits option.splits)

lemma discover_failed:
  assumes "forceRefresh \<or> \<not> isCacheValid s env"
    and "snd (fetchModelsFromAPI s env) = Inl e"
  shows "\<exists>s'. discoverModels forceRefresh s env =
      (s', Inr (case cache s of
                  Some c \<Rightarrow> c
                | None \<Rightarrow> \<lparr>models = [], lastUpdated = clock_stamp env, success = False,
                    error = Some (case e of Error message \<Rightarrow> message
                                  | NonError \<Rightarrow> ''Unknown error'')\<rparr>)) \<and>
     cache s' = cache s \<and> stored s' = stored s"
proof -
  obtain s1 where f: "fetchModelsFromAPI s env = (s1, Inl e)"
    using assms(2) by (cases "fetchModelsFromAPI s env") simp
  with fetch_keeps [of s env] have "cache s1 = cache s" "stored s1 = stored s"
    by simp_all
  with assms(1) f show ?thesis
    by (auto simp: discoverModels_def discoverModels_try_def Let_def split: option.splits)
qed

lemma fetch_fails:
  assumes "apiKey s = [] \<or> (\<exists>e. fetch_outcome env = FetchRejects e) \<or>
     (\<exists>status statusText b. fetch_outcome env = Response False status statusText b)"
  shows "\<exists>e. snd (fetchModelsFromAPI s env) = Inl e"
  using assms by (auto simp: fetchModelsFromAPI_def Let_def)


text \<open>
  C1, as the code has it.  With a cache no older than 24 hours (86400000 ms),
  \<open>discoverModels(false)\<close> returns that cache and leaves the whole state, the request
  count included, as it was.  \<open>discoverModels(true)\<close> never takes the short-cut,
  whatever the age of the cache: it makes one network request when an API key is
  configured and none when it is not, and when the request succeeds it returns, and
  caches, the fresh result.  When an API key is configured, the cache is absent or
  stale and the request succeeds, a second \<open>discoverModels(false)\<close>, issued less than
  24 hours after the first result was stamped, returns the first call's result, and
  the two calls have made exactly one request between them.
\<close>

theorem C1_discoverModels_cache:
  "(\<forall>c. cache s = Some c \<and> clock_check env - lastUpdated c < 86400000 \<longrightarrow>
      discoverModels False s env = (s, Inr c)) \<and>
   requests (fst (discoverModels True s env)) =
     requests s + (if apiKey s = [] then 0 else 1) \<and>
   (\<forall>status statusText d.
      apiKey s \<noteq> [] \<and> fetch_outcome env = Response True status statusText (JsonValue d) \<longrightarrow>
      (\<exists>s' r. discoverModels True s env = (s', Inr r) \<and> cache s' = Some r \<and>
         success r \<and> lastUpdated r = clock_stamp env \<and>
         models r = map toGoogleModel
           (filter isGenerativeModel (case d of None \<Rightarrow> [] | Some entries \<Rightarrow> entries)))) \<and>
   (\<forall>status statusText d.
      apiKey s \<noteq> [] \<and> \<not> isCacheValid s env \<and>
      fetch_outcome env = Response True status statusText (JsonValue d) \<and>
      clock_check env2 - clock_stamp env < 86400000 \<longrightarrow>
      (\<exists>s1 s2 r.
         discoverModels False s env = (s1, Inr r) \<and>
         discoverModels False s1 env2 = (s2, Inr r) \<and>
         requests s1 = requests s + 1 \<and> requests s2 = requests s + 1))"
proof (intro conjI allI impI)
  fix c
  assume "cache s = Some c \<and> clock_check env - lastUpdated c < 86400000"
  then show "discoverModels False s env = (s, Inr c)"
    by (simp add: discover_hit)
next
  show "requests (fst (discoverModels True s env)) =
     requests s + (if apiKey s = [] then 0 else 1)"
    by (simp add: discover_requests)
next
  fix status statusText d
  assume a: "apiKey s \<noteq> [] \<and>
    fetch_outcome env = Response True status statusText (JsonValue d)"
  then have "apiKey s \<noteq> []"
    and "fetch_outcome env = Response True status statusText (JsonValue d)"
    by simp_all
  from discover_fresh [OF _ this, of True]
  show "\<exists>s' r. discoverModels True s env = (s', Inr r) \<and> cache s' = Some r \<and>
         success r \<and> lastUpdated r = clock_stamp env \<and>
         models r = map toGoogleModel
           (filter isGenerativeModel (case d of None \<Rightarrow> [] | Some entries \<Rightarrow> entries))"
    by auto
next
  fix status statusText d
  assume a: "apiKey s \<noteq> [] \<and> \<not> isCacheValid s env \<and>
      fetch_outcome env = Response True status statusText (JsonValue d) \<and>
      clock_check env2 - clock_stamp env < 86400000"
  then have key: "apiKey s \<noteq> []"
    and miss: "False \<or> \<not> isCacheValid s env"
    and ok: "fetch_outcome env = Response True status statusText (JsonValue d)"
    and soon: "clock_check env2 - clock_stamp env < 86400000"
    by simp_all
  from discover_fresh [OF miss key ok]
  obtain s1 r where first: "discoverModels False s env = (s1, Inr r)"
    and cached: "cache s1 = Some r" and stamp: "lastUpdated r = clock_stamp env"
    and one: "requests s1 = requests s + 1"
    by auto
  from cached soon stamp have "discoverModels False s1 env2 = (s1, Inr r)"
    by (simp add: discover_hit)
  with first one
  show "\<exists>s1 s2 r.
         discoverModels False s env = (s1, Inr r) \<and>
         discoverModels False s1 env2 = (s2, Inr r) \<and>
         requests s1 = requests s + 1 \<and> requests s2 = requests s + 1"
    by blast
qed

text \<open>
  C1 at concrete inputs: a service with a key and no cache asks at time 1000 and gets
  the catalog \<open>compound\<close>, \<open>whisper-large-v3\<close>; it asks again at time 2000.
\<close>

theorem C1_discoverModels_cache_witness:
  "apiKey keyed_service \<noteq> [] \<and> \<not> isCacheValid keyed_service (env_ok 1000) \<and>
   clock_check (env_ok 2000) - clock_stamp (env_ok 1000) < 86400000 \<and>
   (\<exists>s1 s2 r.
      discoverModels False keyed_service (env_ok 1000) = (s1, Inr r) \<and>
      discoverModels False s1 (env_ok 2000) = (s2, Inr r) \<and>
      requests s1 = 1 \<and> requests s2 = 1)"
proof -
  have hyp: "apiKey keyed_service \<noteq> [] \<and> \<not> isCacheValid keyed_service (env_ok 1000) \<and>
      fetch_outcome (env_ok 1000) = Response True 200 ''OK''
        (JsonValue (Some [\<lparr>entry_id = ''compound'', owned_by = ''groq''\<rparr>,
                          \<lparr>entry_id = ''whisper-large-v3'', owned_by = ''groq''\<rparr>])) \<and>
      clock_check (env_ok 2000) - clock_stamp (env_ok 1000) < 86400000"
    by (simp add: keyed_service_def env_ok_def isCacheValid_def)
  have zero: "requests keyed_service = 0"
    by (simp add: keyed_service_def)
  note all = C1_discoverModels_cache [of keyed_service "env_ok 1000" "env_ok 2000",
      THEN conjunct2, THEN conjunct2, THEN conjunct2]
  from all [THEN spec, THEN spec, THEN spec, THEN mp, OF hyp] zero
  have "\<exists>s1 s2 r.
      discoverModels False keyed_service (env_ok 1000) = (s1, Inr r) \<and>
      discoverModels False s1 (env_ok 2000) = (s2, Inr r) \<and>
      requests s1 = 1 \<and> requests s2 = 1"
    by simp
  with hyp show ?thesis
    by blast
qed

text \<open>
  C1, as the claim words it, fails twice.  Without an API key \<open>discoverModels(true)\<close>
  makes no network request.  And two calls \<open>discoverModels(false)\<close> one second apart
  make two requests when the first one is answered with status 500: a failed attempt
  leaves no cache behind.
\<close>

theorem C1_request_count_counterexample:
  "requests (fst (discoverModels True no_key_service (env_ok 1000))) = 0 \<and>
   requests (fst (discoverModels False
      (fst (discoverModels False keyed_service (env_500 1000))) (env_500 2000))) = 2"
  by (simp add: discoverModels_def discoverModels_try_def fetchModelsFromAPI_def
      isCacheValid_def no_key_service_def keyed_service_def env_ok_def env_500_def Let_def)

text \<open>
  C2.  \<open>discoverModels\<close> always returns a result, never an exception.  The catalog
  fetch fails, among other cases, when no API key is configured, when the request is
  rejected by the network, and when the response is not \<open>ok\<close>.  Whenever the fetch is
  attempted and fails, the call returns the cache it found if there is one, and
  otherwise a result with \<open>success = false\<close>, an error string and no model; the cache
  and the durable copy are as they were.
\<close>

theorem C2_discoverModels_failure:
  "(\<exists>s' r. discoverModels forceRefresh s env = (s', Inr r)) \<and>
   (apiKey s = [] \<or> (\<exists>e. fetch_outcome env = FetchRejects e) \<or>
    (\<exists>status statusText b. fetch_outcome env = Response False status statusText b) \<longrightarrow>
      (\<exists>e. snd (fetchModelsFromAPI s env) = Inl e)) \<and>
   (\<forall>e. (forceRefresh \<or> \<not> isCacheValid s env) \<and> snd (fetchModelsFromAPI s env) = Inl e \<longrightarrow>
      (\<exists>s' message.
         discoverModels forceRefresh s env =
           (s', Inr (case cache s of
                       Some c \<Rightarrow> c
                     | None \<Rightarrow> \<lparr>models = [], lastUpdated = clock_stamp env, success = False,
                                 error = Some message\<rparr>)) \<and>
         cache s' = cache s \<and> stored s' = stored s))"
proof (intro conjI allI impI)
  show "\<exists>s' r. discoverModels forceRefresh s env = (s', Inr r)"
    by (rule discover_total)
next
  assume "apiKey s = [] \<or> (\<exists>e. fetch_outcome env = FetchRejects e) \<or>
    (\<exists>status statusText b. fetch_outcome env = Response False status statusText b)"
  then show "\<exists>e. snd (fetchModelsFromAPI s env) = Inl e"
    by (rule fetch_fails)
next
  fix e
  assume "(forceRefresh \<or> \<not> isCacheValid s env) \<and> snd (fetchModelsFromAPI s env) = Inl e"
  then have "forceRefresh \<or> \<not> isCacheValid s env" and "snd (fetchModelsFromAPI s env) = Inl e"
    by simp_all
  from discover_failed [OF this]
  show "\<exists>s' message.
         discoverModels forceRefresh s env =
           (s', Inr (case cache s of
                       Some c \<Rightarrow> c
                     | None \<Rightarrow> \<lparr>models = [], lastUpdated = clock_stamp env, success = False,
                                 error = Some message\<rparr>)) \<and>
         cache s' = cache s \<and> stored s' = stored s"
    by blast
qed

text \<open>
  C2 at concrete inputs: without a key and without a cache the call returns the failed
  empty result; with a stale cache and a response of status 500 it returns the stale
  cache and keeps it.
\<close>

theorem C2_discoverModels_failure_witness:
  "snd (discoverModels True no_key_service (env_ok 1000)) =
     Inr \<lparr>models = [], lastUpdated = 1000, success = False,
          error = Some ''API key not configured''\<rparr> \<and>
   \<not> isCacheValid stale_service (env_500 90000000) \<and>
   snd (fetchModelsFromAPI stale_service (env_500 90000000)) =
     Inl (Error ''API request failed: 500 Internal Server Error'') \<and>
   (\<exists>s'. discoverModels False stale_service (env_500 90000000) = (s', Inr old_result) \<and>
      cache s' = Some old_result)"
proof -
  have nokey: "snd (discoverModels True no_key_service (env_ok 1000)) =
     Inr \<lparr>models = [], lastUpdated = 1000, success = False,
          error = Some ''API key not configured''\<rparr>"
    by (simp add: discoverModels_def discoverModels_try_def fetchModelsFromAPI_def
        no_key_service_def env_ok_def)
  have stale: "\<not> isCacheValid stale_service (env_500 90000000)"
    by (simp add: isCacheValid_def stale_service_def old_result_def env_500_def
        CACHE_DURATION_def)
  have "decimal 500 = ''500''"
    by code_simp
  then have failed: "snd (fetchModelsFromAPI stale_service (env_500 90000000)) =
     Inl (Error ''API request failed: 500 Internal Server Error'')"
    by (simp add: fetchModelsFromAPI_def stale_service_def env_500_def)
  from stale failed
  have hyp: "(False \<or> \<not> isCacheValid stale_service (env_500 90000000)) \<and>
     snd (fetchModelsFromAPI stale_service (env_500 90000000)) =
       Inl (Error ''API request failed: 500 Internal Server Error'')"
    by simp
  have c: "cache stale_service = Some old_result"
    by (simp add: stale_service_def)
  note C2_discoverModels_failure [of False stale_service "env_500 90000000",
      THEN conjunct2, THEN conjunct2, THEN spec, THEN mp, OF hyp]
  with c have "\<exists>s'. discoverModels False stale_service (env_500 90000000) =
      (s', Inr old_result) \<and> cache s' = Some old_result"
    by auto
  with nokey stale failed show ?thesis
    by blast
qed

section \<open>Properties of the tool-call buffer\<close>

lemma map_get_map_set:
  "map_get (map_set b k v) i = (if i = k then Some v else map_get b i)"
  by (induction b) auto

lemma key_in: "(k, v) \<in> set b \<Longrightarrow> k \<in> fst ` set b"
  by force

lemma keys_map_set:
  "map fst (map_set b k v) = (if k \<in> set (map fst b) then map fst b else map fst b @ [k])"
  by (induction b) (auto dest: key_in)


lemma map_get_distinct:
  "distinct (map fst b) \<Longrightarrow> (i, f) \<in> set b \<Longrightarrow> map_get b i = Some f"
proof (induction b)
  case Nil
  then show ?case by simp
next
  case (Cons kv b)
  obtain k v where kv: "kv = (k, v)"
    by (cases kv)
  show ?case
  proof (cases "k = i")
    case True
    with Cons.prems kv have "(i, f) = (k, v)"
      by (auto dest: key_in)
    with True kv show ?thesis by simp
  next
    case False
    with Cons kv show ?thesis by auto
  qed
qed

lemma tabulate:
  "map fst l = ks \<Longrightarrow> (\<forall>(i, f) \<in> set l. f = g i) \<Longrightarrow> l = map (\<lambda>i. (i, g i)) ks"
  by (induction l arbitrary: ks) auto

lemma accumulate_get:
  "map_get (accumulate b tc) i =
     (if entry_index tc = i then
        Some \<lparr>frag_id = (if truthy (tc_id tc) then tc_id tc else buffered_id b i),
              frag_name = (if truthy (function_name tc) then function_name tc
                           else buffered_name b i),
              frag_arguments = buffered_arguments b i @ fragment_text tc\<rparr>
      else map_get b i)"
  by (auto simp: accumulate_def entry_index_def Let_def map_get_map_set buffered_id_def
      buffered_name_def buffered_arguments_def fragment_text_def
      split: option.splits)

lemma accumulate_keys:
  "map fst (accumulate b tc) =
     (if entry_index tc \<in> set (map fst b) then map fst b else map fst b @ [entry_index tc])"
  by (simp add: accumulate_def entry_index_def Let_def keys_map_set)

lemma accumulate_distinct:
  "distinct (map fst b) \<Longrightarrow> distinct (map fst (accumulate b tc))"
  by (simp add: accumulate_keys)

lemma truthy_last_supplied:
  "truthy (last_supplied vs) \<longleftrightarrow> (\<exists>v \<in> set vs. truthy v)"
proof (cases "filter truthy vs")
  case Nil
  then have "\<not> (\<exists>v \<in> set vs. truthy v)"
    by (simp add: filter_empty_conv)
  with Nil show ?thesis
    by (simp add: last_supplied_def truthy_def)
next
  case (Cons t ts)
  have "last (t # ts) \<in> set (filter truthy vs)"
    unfolding Cons by (rule last_in_set) simp
  then have "truthy (last (t # ts))" and "last (t # ts) \<in> set vs"
    by simp_all
  with Cons show ?thesis
    by (auto simp: last_supplied_def)
qed

lemma last_supplied_Cons:
  "last_supplied (v # vs) =
     (if truthy (last_supplied vs) then last_supplied vs else if truthy v then v else None)"
proof (cases "filter truthy vs")
  case Nil
  then show ?thesis
    using truthy_last_supplied [of vs]
    by (auto simp: last_supplied_def filter_empty_conv)
next
  case (Cons t ts)
  then show ?thesis
    using truthy_last_supplied [of vs]
    by (auto simp: last_supplied_def)
qed

lemma last_supplied_Nil: "last_supplied [] = None"
  by (simp add: last_supplied_def)

lemma last_supplied_None: "\<not> truthy (last_supplied vs) \<Longrightarrow> last_supplied vs = None"
  by (induction vs) (auto simp: last_supplied_Nil last_supplied_Cons split: if_splits)

lemma fold_keys:
  "map fst (foldl accumulate b ds) =
     map fst b @ filter (\<lambda>i. i \<notin> set (map fst b)) (indices ds)"
proof (induction ds arbitrary: b)
  case Nil
  then show ?case by (simp add: indices_def)
next
  case (Cons tc ds)
  let ?k = "entry_index tc"
  show ?case
  proof (cases "?k \<in> set (map fst b)")
    case True
    then have "filter (\<lambda>i. i \<notin> set (map fst b)) (filter (\<lambda>y. y \<noteq> ?k) xs) =
        filter (\<lambda>i. i \<notin> set (map fst b)) xs" for xs
      by (induction xs) auto
    with True Cons.IH [of "accumulate b tc"] show ?thesis
      by (simp add: indices_def accumulate_keys)
  next
    case False
    then have "filter (\<lambda>i. i \<notin> set (map fst b @ [?k])) xs =
        filter (\<lambda>i. i \<notin> set (map fst b)) (filter (\<lambda>y. y \<noteq> ?k) xs)" for xs
      by (induction xs) auto
    with False Cons.IH [of "accumulate b tc"] show ?thesis
      by (simp add: indices_def accumulate_keys)
  qed
qed

lemma fold_distinct:
  "distinct (map fst b) \<Longrightarrow> distinct (map fst (foldl accumulate b ds))"
  by (induction ds arbitrary: b) (simp_all add: accumulate_distinct)

lemma fold_arguments:
  "buffered_arguments (foldl accumulate b ds) i = buffered_arguments b i @ arguments_at i ds"
proof (induction ds arbitrary: b)
  case Nil
  then show ?case by (simp add: arguments_at_def entries_at_def)
next
  case (Cons tc ds)
  have "buffered_arguments (accumulate b tc) i =
      buffered_arguments b i @ (if entry_index tc = i then fragment_text tc else [])"
    by (simp add: buffered_arguments_def [of "accumulate b tc"] accumulate_get)
      (simp add: buffered_arguments_def)
  with Cons.IH [of "accumulate b tc"] show ?case
    by (simp add: arguments_at_def entries_at_def)
qed

lemma fold_name:
  "buffered_name (foldl accumulate b ds) i =
     (if truthy (name_at i ds) then name_at i ds else buffered_name b i)"
proof (induction ds arbitrary: b)
  case Nil
  then show ?case
    by (simp add: name_at_def entries_at_def last_supplied_Nil truthy_def)
next
  case (Cons tc ds)
  have step: "buffered_name (accumulate b tc) i =
      (if entry_index tc = i \<and> truthy (function_name tc) then function_name tc
       else buffered_name b i)"
    by (simp add: buffered_name_def [of "accumulate b tc"] accumulate_get)
      (simp add: buffered_name_def)
  show ?case
    using Cons.IH [of "accumulate b tc"] step
    by (auto simp: name_at_def entries_at_def last_supplied_Cons truthy_def)
qed

lemma fold_id:
  "buffered_id (foldl accumulate b ds) i =
     (if truthy (id_at i ds) then id_at i ds else buffered_id b i)"
proof (induction ds arbitrary: b)
  case Nil
  then show ?case
    by (simp add: id_at_def entries_at_def last_supplied_Nil truthy_def)
next
  case (Cons tc ds)
  have step: "buffered_id (accumulate b tc) i =
      (if entry_index tc = i \<and> truthy (tc_id tc) then tc_id tc else buffered_id b i)"
    by (simp add: buffered_id_def [of "accumulate b tc"] accumulate_get)
      (simp add: buffered_id_def)
  show ?case
    using Cons.IH [of "accumulate b tc"] step
    by (auto simp: id_at_def entries_at_def last_supplied_Cons truthy_def)
qed

text \<open>The buffer after a list of entries, written out index by index.\<close>

lemma buffer_by_index:
  "foldl accumulate [] ds =
     map (\<lambda>i. (i, \<lparr>frag_id = id_at i ds, frag_name = name_at i ds,
                    frag_arguments = arguments_at i ds\<rparr>)) (indices ds)"
proof (rule tabulate)
  show "map fst (foldl accumulate [] ds) = indices ds"
    by (simp add: fold_keys)
next
  have dist: "distinct (map fst (foldl accumulate [] ds))"
    by (rule fold_distinct) simp
  have "f = \<lparr>frag_id = id_at i ds, frag_name = name_at i ds,
      frag_arguments = arguments_at i ds\<rparr>"
    if "(i, f) \<in> set (foldl accumulate [] ds)" for i f
  proof -
    from dist that have get: "map_get (foldl accumulate [] ds) i = Some f"
      by (rule map_get_distinct)
    from fold_arguments [of "[]" ds i] get have "frag_arguments f = arguments_at i ds"
      by (simp add: buffered_arguments_def)
    moreover from fold_name [of "[]" ds i] get have "frag_name f = name_at i ds"
      by (simp add: buffered_name_def name_at_def last_supplied_None)
    moreover from fold_id [of "[]" ds i] get have "frag_id f = id_at i ds"
      by (simp add: buffered_id_def id_at_def last_supplied_None)
    ultimately show ?thesis
      by simp
  qed
  then show "\<forall>(i, f) \<in> set (foldl accumulate [] ds).
      f = \<lparr>frag_id = id_at i ds, frag_name = name_at i ds,
            frag_arguments = arguments_at i ds\<rparr>"
    by blast
qed

lemma indices_empty: "indices ds = [] \<longleftrightarrow> ds = []"
  by (cases ds) (simp_all add: indices_def)

lemma finalize_by_index:
  "finalize parse (foldl accumulate [] ds) =
     (if ds = [] then None
      else Some (map (\<lambda>i. \<lparr>call_name = name_at i ds,
                            call_arguments = parseJson parse (Some (arguments_at i ds))\<rparr>)
                     (filter (\<lambda>i. truthy (name_at i ds)) (indices ds))))"
  unfolding buffer_by_index
  by (simp add: finalize_def indices_empty filter_map comp_def)


section \<open>Properties of the read loop\<close>












section \<open>Properties of the completion client\<close>




text \<open>
  C8, as the code has it.  For every arguments string that is not empty, \<open>parseJson\<close>
  returns what \<open>JSON.parse\<close> returns, and \<open>{raw: <the string>}\<close> when \<open>JSON.parse\<close>
  throws; it never throws itself.  (The empty string is not parsed: it gives \<open>{}\<close>.)
  In the non-streaming path every entry of \<open>tool_calls\<close> becomes a tool call whose
  arguments are decoded so; in the streaming path, whenever the read loop ends
  without an exception, the call resolves, and each named fragment of the buffer
  becomes a tool call whose arguments are decoded so.
\<close>

theorem C8_parseJson_fallback:
  "(\<forall>s. s \<noteq> [] \<and> parse s = None \<longrightarrow>
      parseJson parse (Some s) = JObject [(''raw'', JString s)]) \<and>
   (\<forall>s parsed. s \<noteq> [] \<and> parse s = Some parsed \<longrightarrow> parseJson parse (Some s) = parsed) \<and>
   (\<forall>m tcs. message_tool_calls m = Some tcs \<and> tcs \<noteq> [] \<longrightarrow>
      toolCalls (extractResponse parse (Some m)) =
        Some (map (\<lambda>tc. \<lparr>call_name = function_name tc,
                           call_arguments = parseJson parse (function_arguments tc)\<rparr>) tcs)) \<and>
   (\<forall>st'. read_loop p reads
             \<lparr>markdown_so_far = [], buffer = [], toolCallBuffer = [], cancelled = c,
              emitted = []\<rparr> = Some (Inr st') \<longrightarrow>
      generateStreamingResponse p c (Stream reads) =
        Some (Inr (\<lparr>markdown = markdown_so_far st', rendered = [],
                    toolCalls =
                      (if toolCallBuffer st' = [] then None
                       else Some (map (\<lambda>f. \<lparr>call_name = frag_name f,
                                             call_arguments =
                                               parseJson (JSON_parse p) (Some (frag_arguments f))\<rparr>)
                                      (filter (\<lambda>f. truthy (frag_name f))
                                         (map snd (toolCallBuffer st')))))\<rparr>,
                   emitted st')))"
proof (intro conjI allI impI)
  fix s
  assume "s \<noteq> [] \<and> parse s = None"
  then show "parseJson parse (Some s) = JObject [(''raw'', JString s)]"
    by (simp add: parseJson_def)
next
  fix s parsed
  assume "s \<noteq> [] \<and> parse s = Some parsed"
  then show "parseJson parse (Some s) = parsed"
    by (simp add: parseJson_def)
next
  fix m :: Message and tcs
  assume "message_tool_calls m = Some tcs \<and> tcs \<noteq> []"
  then show "toolCalls (extractResponse parse (Some m)) =
        Some (map (\<lambda>tc. \<lparr>call_name = function_name tc,
                           call_arguments = parseJson parse (function_arguments tc)\<rparr>) tcs)"
    by (cases tcs) (simp_all add: extractResponse_def)
next
  fix st'
  assume "read_loop p reads
             \<lparr>markdown_so_far = [], buffer = [], toolCallBuffer = [], cancelled = c,
              emitted = []\<rparr> = Some (Inr st')"
  then show "generateStreamingResponse p c (Stream reads) =
        Some (Inr (\<lparr>markdown = markdown_so_far st', rendered = [],
                    toolCalls =
                      (if toolCallBuffer st' = [] then None
                       else Some (map (\<lambda>f. \<lparr>call_name = frag_name f,
                                             call_arguments =
                                               parseJson (JSON_parse p) (Some (frag_arguments f))\<rparr>)
                                      (filter (\<lambda>f. truthy (frag_name f))
                                         (map snd (toolCallBuffer st')))))\<rparr>,
                   emitted st'))"
    by (simp add: generateStreamingResponse_def finalize_def)
qed

text \<open>
  C8 at concrete inputs, with the JSON grammar for \<open>JSON.parse\<close>: the truncated
  payload \<open>{"que\<close> is kept raw, the payload \<open>{"query":"abc"}\<close> is decoded.
\<close>

theorem C8_parseJson_fallback_witness:
  \<open>''{"que'' \<noteq> [] \<and> json_parse ''{"que'' = None \<and>
   parseJson json_parse (Some ''{"que'') = JObject [(''raw'', JString ''{"que'')] \<and>
   json_parse ''{"query":"abc"}'' = Some (JObject [(''query'', JString ''abc'')]) \<and>
   parseJson json_parse (Some ''{"query":"abc"}'') = JObject [(''query'', JString ''abc'')]\<close>
proof -
  have bad: \<open>''{"que'' \<noteq> [] \<and> json_parse ''{"que'' = None\<close>
    by code_simp
  have good: \<open>''{"query":"abc"}'' \<noteq> [] \<and>
      json_parse ''{"query":"abc"}'' = Some (JObject [(''query'', JString ''abc'')])\<close>
    by code_simp
  note raw = C8_parseJson_fallback [of json_parse, THEN conjunct1, THEN spec, THEN mp, OF bad]
  note parsed = C8_parseJson_fallback [of json_parse, THEN conjunct2, THEN conjunct1,
      THEN spec, THEN spec, THEN mp, OF good]
  from bad good raw parsed show ?thesis
    by simp
qed

text \<open>
  C8, as the claim words it, fails at the empty string: it is an arguments string that
  is not valid JSON, and the decoder returns \<open>{}\<close> for it, not \<open>{raw: ""}\<close>.
\<close>

theorem C8_empty_string_counterexample:
  "json_parse [] = None \<and> parseJson json_parse (Some []) = JObject [] \<and>
   parseJson json_parse (Some []) \<noteq> JObject [(''raw'', JString [])]"
  by (simp add: parseJson_def json_parse_def skip_ws_def)




text \<open>
  C10.  For an absent and for an empty arguments string \<open>parseJson\<close> returns the empty
  object, whatever \<open>JSON.parse\<close> would do.  So in the non-streaming path an entry
  without arguments becomes a tool call with arguments \<open>{}\<close>, and in the streaming
  path so does every index that was given a name and no fragment other than absent or
  empty ones.
\<close>

theorem C10_empty_arguments:
  "parseJson parse None = JObject [] \<and>
   parseJson parse (Some []) = JObject [] \<and>
   (\<forall>m tcs k.
      message_tool_calls m = Some tcs \<and> k < length tcs \<and>
      (function_arguments (tcs ! k) = None \<or> function_arguments (tcs ! k) = Some []) \<longrightarrow>
      (\<exists>calls. toolCalls (extractResponse parse (Some m)) = Some calls \<and>
         length calls = length tcs \<and>
         calls ! k = \<lparr>call_name = function_name (tcs ! k), call_arguments = JObject []\<rparr>)) \<and>
   (\<forall>i. i \<in> set (indices ds) \<and> truthy (name_at i ds) \<and>
      (\<forall>tc \<in> set (entries_at i ds).
          function_arguments tc = None \<or> function_arguments tc = Some []) \<longrightarrow>
      (\<exists>calls. finalize parse (foldl accumulate [] ds) = Some calls \<and>
         \<lparr>call_name = name_at i ds, call_arguments = JObject []\<rparr> \<in> set calls))"
proof (intro conjI allI impI)
  show "parseJson parse None = JObject []"
    by (simp add: parseJson_def)
next
  show "parseJson parse (Some []) = JObject []"
    by (simp add: parseJson_def)
next
  fix m :: Message and tcs k
  assume a: "message_tool_calls m = Some tcs \<and> k < length tcs \<and>
      (function_arguments (tcs ! k) = None \<or> function_arguments (tcs ! k) = Some [])"
  then have ne: "tcs \<noteq> []"
    by auto
  from a have "parseJson parse (function_arguments (tcs ! k)) = JObject []"
    by (auto simp: parseJson_def)
  with a ne show "\<exists>calls. toolCalls (extractResponse parse (Some m)) = Some calls \<and>
         length calls = length tcs \<and>
         calls ! k = \<lparr>call_name = function_name (tcs ! k), call_arguments = JObject []\<rparr>"
    by (cases tcs) (simp_all add: extractResponse_def del: list.map)
next
  fix i
  assume a: "i \<in> set (indices ds) \<and> truthy (name_at i ds) \<and>
      (\<forall>tc \<in> set (entries_at i ds).
          function_arguments tc = None \<or> function_arguments tc = Some [])"
  then have "\<forall>tc \<in> set (entries_at i ds). fragment_text tc = []"
    by (auto simp: fragment_text_def)
  then have "arguments_at i ds = []"
    by (simp add: arguments_at_def)
  then have call: "\<lparr>call_name = name_at i ds,
      call_arguments = parseJson parse (Some (arguments_at i ds))\<rparr> =
      \<lparr>call_name = name_at i ds, call_arguments = JObject []\<rparr>"
    by (simp add: parseJson_def)
  from a have "ds \<noteq> []"
    by (auto simp: indices_def)
  moreover from a have "i \<in> set (filter (\<lambda>i. truthy (name_at i ds)) (indices ds))"
    by simp
  ultimately show "\<exists>calls. finalize parse (foldl accumulate [] ds) = Some calls \<and>
         \<lparr>call_name = name_at i ds, call_arguments = JObject []\<rparr> \<in> set calls"
    using call by (auto simp: finalize_by_index image_iff)
qed

text \<open>
  C10 at concrete inputs: a tool call \<open>list_files\<close> that comes without arguments, in a
  message and in a stream.
\<close>

theorem C10_empty_arguments_witness:
  "toolCalls (extractResponse json_parse (Some bare_message)) =
     Some [\<lparr>call_name = Some ''list_files'', call_arguments = JObject []\<rparr>] \<and>
   finalize json_parse (foldl accumulate [] [bare_entry]) =
     Some [\<lparr>call_name = Some ''list_files'', call_arguments = JObject []\<rparr>]"
proof -
  have hyp1: "message_tool_calls bare_message = Some [bare_entry] \<and> 0 < length [bare_entry] \<and>
      (function_arguments ([bare_entry] ! 0) = None \<or>
       function_arguments ([bare_entry] ! 0) = Some [])"
    by (simp add: bare_message_def bare_entry_def)
  note C10_empty_arguments [of json_parse, THEN conjunct2, THEN conjunct2, THEN conjunct1,
      THEN spec, THEN spec, THEN spec, THEN mp, OF hyp1]
  then obtain calls where
    "toolCalls (extractResponse json_parse (Some bare_message)) = Some calls"
    "length calls = 1"
    "calls ! 0 = \<lparr>call_name = function_name bare_entry, call_arguments = JObject []\<rparr>"
    by auto
  then have first: "toolCalls (extractResponse json_parse (Some bare_message)) =
     Some [\<lparr>call_name = Some ''list_files'', call_arguments = JObject []\<rparr>]"
    by (cases calls) (simp_all add: bare_entry_def)
  have second: "finalize json_parse (foldl accumulate [] [bare_entry]) =
     Some [\<lparr>call_name = Some ''list_files'', call_arguments = JObject []\<rparr>]"
    by code_simp
  from first second show ?thesis
    by blast
qed

section \<open>Runs of the model\<close>

text \<open>
  The model on the inputs of the repository's tests (\<open>streams content chunks\<close>,
  \<open>discovers and maps groq models\<close>, \<open>updates invalid model settings to current
  defaults\<close>), and on a stream of tool-call events whose boundaries do not coincide with
  those of the reads.
\<close>

lemma stream_of_tool_events:
  "generateStreamingResponse quiet_platform False
     (Stream [quiet_read tool_event_1, quiet_read (take 40 tool_event_2),
              quiet_read (drop 40 tool_event_2 @ tool_event_3), end_of_stream]) =
     Some (Inr (\<lparr>markdown = [], rendered = [],
                 toolCalls = Some [\<lparr>call_name = Some ''add'',
                                    call_arguments =
                                      JArray [JNumber ''10'', JNumber ''20'', JNumber ''30'']\<rparr>]\<rparr>,
                []))"
  by code_simp

lemma streams_content_chunks:
  "generateStreamingResponse quiet_platform False
     (Stream [quiet_read (hello_event @ world_event @ done_event), end_of_stream]) =
     Some (Inr (\<lparr>markdown = ''Hello World'', rendered = [], toolCalls = None\<rparr>,
                [''Hello '', ''World'']))"
  by code_simp

lemma discovers_and_maps_groq_models:
  "\<exists>s' r. discoverModels True keyed_service (env_ok 1000) = (s', Inr r) \<and>
     success r \<and> map name (models r) = [''compound''] \<and> stored s' = Some r \<and> requests s' = 1"
  by (simp add: discoverModels_def discoverModels_try_def fetchModelsFromAPI_def
      persistCache_def keyed_service_def env_ok_def isGenerativeModel_def toGoogleModel_def
      toLowerCase_def lowerChar_def includes_str_def sublist_Cons_right Let_def)

lemma updates_invalid_model_settings:
  "getUpdatedModelSettings (take 3 DEFAULT_GEMINI_MODELS)
     \<lparr>chatModelName = Some ''old-chat'', summaryModelName = Some ''old-summary'',
      completionsModelName = Some ''old-completions'', imageModelName = Some ''old-image''\<rparr> =
   Inr \<lparr>updatedSettings =
          \<lparr>chatModelName = Some ''compound'', summaryModelName = Some ''compound-mini'',
           completionsModelName = Some ''llama-3.3-70b-versatile'', imageModelName = Some []\<rparr>,
        settingsChanged = True,
        changedSettingsInfo =
          [''Chat model: '' @ quoted (Some ''old-chat'') @ '' -> '' @ quoted (Some ''compound'') @
             '' (model update)'',
           ''Summary model: '' @ quoted (Some ''old-summary'') @ '' -> '' @
             quoted (Some ''compound-mini'') @ '' (model update)'',
           ''Completions model: '' @ quoted (Some ''old-completions'') @ '' -> '' @
             quoted (Some ''llama-3.3-70b-versatile'') @ '' (model update)'',
           ''Image model '' @ quoted (Some ''old-image'') @
             '' is not available on Groq and was cleared.'']\<rparr>"
  by (simp add: getUpdatedModelSettings_def updateChat_def updateSummary_def
      updateCompletions_def updateImage_def needsUpdate_def getDefaultModelForRole_def
      claimsRole_def DEFAULT_GEMINI_MODELS_def Let_def)

end
